theory Spec2Isabelle
  imports Main "HOL-Library.Word"
begin

section \<open>Errors (error.go)\<close>

text \<open>
  A Go \<open>error\<close> value is one of: a value of the package's string type \<open>Error\<close> (the
  sentinels below), the result of \<open>fmt.Errorf\<close> (its format string and, in order, the
  operands of its \<open>%w\<close> verbs; the operands of the other verbs only change the message
  text and are left out), an error value of another package (\<open>database/sql\<close>, the
  driver, \<open>encoding/hex\<close>, \<open>errors.New\<close>). A panic is not an error
  value: a call that panics returns nothing, and the one place where the package itself
  panics (\<open>Append\<close> on the zero value of \<open>Steps\<close>) has a result of its own.
\<close>

datatype error =
    Error string
  | Errorf string "error list"
  | Foreign string

definition ErrBadParameters :: error where
  "ErrBadParameters = Error ''bad parameters''"

definition ErrAlreadyInitialized :: error where
  "ErrAlreadyInitialized = Error ''already initialized''"

definition ErrBadVersionID :: error where
  "ErrBadVersionID = Error ''bad version identifier''"

definition ErrBadVersionChecksum :: error where
  "ErrBadVersionChecksum = Error ''bad version checksum''"

definition ErrNotInitialized :: error where
  "ErrNotInitialized = Error ''not initialized''"

definition ErrBadVersion :: error where
  "ErrBadVersion = Error ''bad version''"

definition ErrEndOfSteps :: error where
  "ErrEndOfSteps = Error ''end of steps''"

definition ErrNotSQLDB :: error where
  "ErrNotSQLDB = Error ''not an SQL database''"

definition ErrBeginTx :: error where
  "ErrBeginTx = Error ''begin transaction''"

definition ErrCommitTx :: error where
  "ErrCommitTx = Error ''commit transaction''"

definition ErrRollbackTx :: error where
  "ErrRollbackTx = Error ''rollback transaction''"

definition ErrCancel :: error where
  "ErrCancel = Error ''cancel transaction''"

definition ErrAbort :: error where
  "ErrAbort = Error ''abort transaction''"

text \<open>
  \<open>errors.Is err target\<close>: \<open>err\<close> is the target, or one of the errors it wraps (depth
  first through every \<open>%w\<close> operand) is.
\<close>

fun Is :: "error \<Rightarrow> error \<Rightarrow> bool" where
  "Is (Errorf f es) target = (Errorf f es = target \<or> list_ex (\<lambda>e. Is e target) es)"
| "Is e target = (e = target)"

section \<open>Versions (version.go)\<close>

type_synonym byte = "8 word"

record Version =
  ID :: int
  Checksum :: "byte list"

definition badVersion :: Version where
  "badVersion = \<lparr>ID = - 1, Checksum = replicate 32 0\<rparr>"

text \<open>\<open>[]byte(name)\<close>: a Go string is its bytes.\<close>

definition bytes :: "string \<Rightarrow> byte list" where
  "bytes str = map of_char str"

text \<open>\<open>encoding/hex\<close>: \<open>EncodeToString\<close> and \<open>DecodeString\<close>.\<close>

definition hextable :: string where
  "hextable = ''0123456789abcdef''"

definition EncodeToString :: "byte list \<Rightarrow> string" where
  "EncodeToString src =
     concat (map (\<lambda>v. [hextable ! (unat v div 16), hextable ! (unat v mod 16)]) src)"

definition fromHexChar :: "char \<Rightarrow> nat option" where
  "fromHexChar c =
     (let n = (of_char c :: nat) in
      if 48 \<le> n \<and> n \<le> 57 then Some (n - 48)
      else if 97 \<le> n \<and> n \<le> 102 then Some (n - 97 + 10)
      else if 65 \<le> n \<and> n \<le> 70 then Some (n - 65 + 10)
      else None)"

fun DecodeString :: "string \<Rightarrow> string + byte list" where
  "DecodeString [] = Inr []"
| "DecodeString [a] =
     (case fromHexChar a of
        None \<Rightarrow> Inl ''encoding/hex: invalid byte''
      | Some p \<Rightarrow> Inl ''encoding/hex: odd length hex string'')"
| "DecodeString (a # b # rest) =
     (case fromHexChar a of
        None \<Rightarrow> Inl ''encoding/hex: invalid byte''
      | Some p \<Rightarrow>
          (case fromHexChar b of
             None \<Rightarrow> Inl ''encoding/hex: invalid byte''
           | Some q \<Rightarrow>
               (case DecodeString rest of
                  Inl e \<Rightarrow> Inl e
                | Inr bs \<Rightarrow> Inr (of_nat (p * 16 + q) # bs))))"

definition ChecksumString :: "Version \<Rightarrow> string" where
  "ChecksumString v = EncodeToString (Checksum v)"

definition MakeVersion :: "int \<Rightarrow> string \<Rightarrow> Version \<times> error option" where
  "MakeVersion id' checksum =
     (if id' < 0 then (badVersion, Some (Errorf ''%w: id %d'' [ErrBadVersionID]))
      else case DecodeString checksum of
        Inl err \<Rightarrow> (badVersion, Some (Errorf ''%w: %w'' [ErrBadVersionChecksum, Foreign err]))
      | Inr b \<Rightarrow>
          if length b \<noteq> 32
          then (badVersion, Some (Errorf ''%w: invalid length'' [ErrBadVersionChecksum]))
          else (\<lparr>ID = id', Checksum = b\<rparr>, None))"

section \<open>The interfaces\<close>

text \<open>
  The database is a state of type \<open>'d\<close>, passed to every operation and returned updated.
  The context and the logger are left out: no operation of the package reads the context,
  and logging changes nothing the package reads back.
\<close>

record stepInfo =
  Name :: string
  From :: Version
  To :: Version

text \<open>
  \<open>SQLDB\<close> with the \<open>SQLTx\<close> it hands out: the open transaction is part of the state.
  Of the \<open>sql.TxOptions\<close> only \<open>ReadOnly\<close> varies (the isolation level is always
  \<open>LevelSerializable\<close>), so \<open>StartTransaction\<close> takes that flag.
  \<open>FinalizeTransaction\<close> takes the error its pointer argument holds and returns the one
  it leaves there.
\<close>

record 'd SQLDB =
  SQLDB_StartTransaction :: "bool \<Rightarrow> 'd \<Rightarrow> error option \<times> 'd"
  SQLTx_FinalizeTransaction :: "error option \<Rightarrow> bool \<Rightarrow> 'd \<Rightarrow> error option \<times> 'd"
  SQLDB_VersionTx :: "'d \<Rightarrow> (Version \<times> error option) \<times> 'd"
  SQLDB_SetVersion :: "stepInfo \<Rightarrow> bool \<Rightarrow> 'd \<Rightarrow> error option \<times> 'd"
  SQLDB_SetVersionTx :: "stepInfo \<Rightarrow> bool \<Rightarrow> 'd \<Rightarrow> error option \<times> 'd"

text \<open>
  \<open>Database\<close>; \<open>Database_SQLDB\<close> is the type assertion \<open>gdb.(SQLDB)\<close>, \<open>None\<close> when the
  value behind the interface has no such methods.
\<close>

record 'd Database =
  Database_InitVersion :: "Version \<Rightarrow> bool \<Rightarrow> 'd \<Rightarrow> error option \<times> 'd"
  Database_Version :: "'d \<Rightarrow> (Version \<times> error option) \<times> 'd"
  Database_DefaultStepFunc :: "stepInfo \<Rightarrow> bool \<Rightarrow> 'd \<Rightarrow> error option \<times> 'd"
  Database_SQLDB :: "'d SQLDB option"

type_synonym 'd StepFunc = "'d Database \<Rightarrow> stepInfo \<Rightarrow> bool \<Rightarrow> 'd \<Rightarrow> error option \<times> 'd"

record 'd Stepper =
  Stepper_Len :: int
  Stepper_Version :: "int \<Rightarrow> Version \<times> error option"
  Stepper_Name :: "int \<Rightarrow> string \<times> error option"
  Stepper_Check :: "Version \<Rightarrow> error option"
  Stepper_Up :: "Version \<Rightarrow> error + stepInfo \<times> 'd StepFunc option"
  Stepper_Down :: "Version \<Rightarrow> error + stepInfo \<times> 'd StepFunc option"

section \<open>The step registry (steps.go)\<close>

record 'd step =
  name :: string
  up :: "'d StepFunc option"
  down :: "'d StepFunc option"
  version :: Version

record 'd Steps =
  steps :: "'d step list"

text \<open>\<open>binary.LittleEndian.AppendUint64\<close>.\<close>

definition AppendUint64 :: "byte list \<Rightarrow> 64 word \<Rightarrow> byte list" where
  "AppendUint64 b v =
     b @ [ucast v, ucast (drop_bit 8 v), ucast (drop_bit 16 v), ucast (drop_bit 24 v),
          ucast (drop_bit 32 v), ucast (drop_bit 40 v), ucast (drop_bit 48 v),
          ucast (drop_bit 56 v)]"

text \<open>
  \<open>sha256.Sum256\<close> is a parameter of the model: every theorem holds for any function
  from byte strings to digests.
\<close>

definition NewSteps :: "(byte list \<Rightarrow> byte list) \<Rightarrow> string \<Rightarrow> 'd Steps" where
  "NewSteps Sum256 nm =
     \<lparr>steps = [\<lparr>name = nm, up = None, down = None,
                version = \<lparr>ID = 0, Checksum = Sum256 (bytes nm)\<rparr>\<rparr>]\<rparr>"

text \<open>
  \<open>Append\<close> returns its error and the registry as the call leaves it. On a registry with
  no step at all (the zero value of \<open>Steps\<close>) the read of \<open>s.steps[ID-1]\<close> panics with
  an index out of range: the call returns nothing, which is the value \<open>None\<close>.
\<close>

definition Steps_Append ::
  "(byte list \<Rightarrow> byte list) \<Rightarrow> string \<Rightarrow> 'd StepFunc option \<Rightarrow> 'd StepFunc option \<Rightarrow>
   'd Steps \<Rightarrow> (error option \<times> 'd Steps) option" where
  "Steps_Append Sum256 nm upf downf s =
     (if nm = [] then Some (Some (Errorf ''append step: name is empty'' []), s)
      else
        let n = length (steps s) in
        if n = 0 then None
        else
          let b = [];
              b = b @ Checksum (version (steps s ! (n - 1)));
              b = AppendUint64 b (word_of_nat n);
              b = b @ bytes nm
          in Some (None, s\<lparr>steps := steps s @
                [\<lparr>name = nm, up = upf, down = downf,
                  version = \<lparr>ID = int n, Checksum = Sum256 b\<rparr>\<rparr>]\<rparr>))"

definition Steps_Len :: "'d Steps \<Rightarrow> int" where
  "Steps_Len s = int (length (steps s))"

definition checkID :: "'d Steps \<Rightarrow> int \<Rightarrow> error option" where
  "checkID s i =
     (if i < 0 \<or> i \<ge> int (length (steps s))
      then Some (Errorf ''%w: id %d'' [ErrBadVersionID])
      else None)"

definition Steps_Version :: "'d Steps \<Rightarrow> int \<Rightarrow> Version \<times> error option" where
  "Steps_Version s i =
     (case checkID s i of
        Some err \<Rightarrow> (badVersion, Some err)
      | None \<Rightarrow> (version (steps s ! nat i), None))"

definition Steps_Name :: "'d Steps \<Rightarrow> int \<Rightarrow> string \<times> error option" where
  "Steps_Name s i =
     (case checkID s i of
        Some err \<Rightarrow> ([], Some err)
      | None \<Rightarrow> (name (steps s ! nat i), None))"

definition check :: "'d Steps \<Rightarrow> Version \<Rightarrow> error option" where
  "check s v =
     (case checkID s (ID v) of
        Some err \<Rightarrow> Some err
      | None \<Rightarrow>
          let ev = version (steps s ! nat (ID v)) in
          if ev \<noteq> v
          then Some (Errorf (''%w: expect '%.10s...', got '%.10s...'' @ [CHR 0x27])
                       [ErrBadVersionChecksum])
          else None)"

definition Steps_Check :: "'d Steps \<Rightarrow> Version \<Rightarrow> error option" where
  "Steps_Check s v = check s v"

definition Steps_Up :: "'d Steps \<Rightarrow> Version \<Rightarrow> error + stepInfo \<times> 'd StepFunc option" where
  "Steps_Up s v =
     (case check s v of
        Some err \<Rightarrow> Inl (Errorf ''%w: %v'' [ErrBadVersion])
      | None \<Rightarrow>
          if ID v = int (length (steps s)) - 1 then Inl (Errorf ''%w: %v'' [ErrEndOfSteps])
          else
            let from = steps s ! nat (ID v);
                to = steps s ! nat (ID v + 1)
            in Inr (\<lparr>Name = name to, From = version from, To = version to\<rparr>, up to))"

definition Steps_Down :: "'d Steps \<Rightarrow> Version \<Rightarrow> error + stepInfo \<times> 'd StepFunc option" where
  "Steps_Down s v =
     (case check s v of
        Some err \<Rightarrow> Inl (Errorf ''%w: %v'' [ErrBadVersion])
      | None \<Rightarrow>
          if ID v = 0 then Inl (Errorf ''%w: %v'' [ErrEndOfSteps])
          else
            let from = steps s ! nat (ID v);
                to = steps s ! nat (ID v - 1)
            in Inr (\<lparr>Name = name from, From = version from, To = version to\<rparr>, down from))"

text \<open>\<open>*Steps\<close> as a \<open>Stepper\<close>.\<close>

definition Steps_Stepper :: "'d Steps \<Rightarrow> 'd Stepper" where
  "Steps_Stepper s =
     \<lparr>Stepper_Len = Steps_Len s, Stepper_Version = Steps_Version s,
      Stepper_Name = Steps_Name s, Stepper_Check = Steps_Check s,
      Stepper_Up = Steps_Up s, Stepper_Down = Steps_Down s\<rparr>"

text \<open>
  A sequence of \<open>Append\<close> calls, each one checked: the registry after the last call, or the
  error of the first call that fails; \<open>None\<close> when a call panics.
\<close>

fun appends ::
  "(byte list \<Rightarrow> byte list) \<Rightarrow> (string \<times> 'd StepFunc option \<times> 'd StepFunc option) list \<Rightarrow>
   'd Steps \<Rightarrow> (error + 'd Steps) option" where
  "appends Sum256 [] s = Some (Inr s)"
| "appends Sum256 ((nm, upf, downf) # calls) s =
     (case Steps_Append Sum256 nm upf downf s of
        None \<Rightarrow> None
      | Some (Some err, s') \<Rightarrow> Some (Inl err)
      | Some (None, s') \<Rightarrow> appends Sum256 calls s')"


section \<open>The migrator (migrate.go)\<close>

text \<open>
  The mutex is left out: the model runs one call at a time. Every method returns the
  migrator and the database as the call leaves them.
\<close>

record 'd Migrator =
  db :: "'d Database"
  steps :: "'d Stepper"
  cachedVersion :: Version


definition versionCtx ::
  "'d Migrator \<Rightarrow> 'd \<Rightarrow> (Version \<times> error option) \<times> 'd Migrator \<times> 'd" where
  "versionCtx m d =
     (let m = m\<lparr>cachedVersion := badVersion\<rparr> in
      case Database_Version (db m) d of
        ((v, Some err), d) \<Rightarrow> ((cachedVersion m, Some err), m, d)
      | ((v, None), d) \<Rightarrow>
          (case Stepper_Check (steps m) v of
             Some err \<Rightarrow> ((cachedVersion m, Some err), m, d)
           | None \<Rightarrow>
               let m = m\<lparr>cachedVersion := v\<rparr>
               in ((cachedVersion m, None), m, d)))"

definition VersionCtx ::
  "'d Migrator \<Rightarrow> 'd \<Rightarrow> (Version \<times> error option) \<times> 'd Migrator \<times> 'd" where
  "VersionCtx m d = versionCtx m d"

definition initCtx ::
  "'d Migrator \<Rightarrow> bool \<Rightarrow> 'd \<Rightarrow> error option \<times> 'd Migrator \<times> 'd" where
  "initCtx m dryRun d =
     (case versionCtx m d of
        ((_, None), m, d) \<Rightarrow> (Some (Errorf ''%w as %v'' [ErrAlreadyInitialized]), m, d)
      | ((_, Some _), m, d) \<Rightarrow>
          (case Stepper_Version (steps m) 0 of
             (v, Some err) \<Rightarrow> (Some (Errorf ''%w: %w'' [ErrNotInitialized, err]), m, d)
           | (v, None) \<Rightarrow>
               (case Database_InitVersion (db m) v dryRun d of
                  (Some err, d) \<Rightarrow> (Some (Errorf ''%w: %w'' [ErrNotInitialized, err]), m, d)
                | (None, d) \<Rightarrow>
                    (None, if \<not> dryRun then m\<lparr>cachedVersion := v\<rparr> else m, d))))"

definition InitCtx :: "'d Migrator \<Rightarrow> 'd \<Rightarrow> error option \<times> 'd Migrator \<times> 'd" where
  "InitCtx m d = initCtx m False d"

definition InitDryRunCtx :: "'d Migrator \<Rightarrow> 'd \<Rightarrow> error option \<times> 'd Migrator \<times> 'd" where
  "InitDryRunCtx m d = initCtx m True d"

definition oneUp ::
  "'d Migrator \<Rightarrow> bool \<Rightarrow> 'd \<Rightarrow> error option \<times> 'd Migrator \<times> 'd" where
  "oneUp m dryRun d =
     (case Stepper_Up (steps m) (cachedVersion m) of
        Inl err \<Rightarrow> (Some err, m, d)
      | Inr (info, upf) \<Rightarrow>
          let (err, d) =
                (case upf of
                   None \<Rightarrow> Database_DefaultStepFunc (db m) info dryRun d
                 | Some f \<Rightarrow> f (db m) info dryRun d)
          in (err, if err = None \<and> \<not> dryRun then m\<lparr>cachedVersion := To info\<rparr> else m, d))"

definition oneDown ::
  "'d Migrator \<Rightarrow> bool \<Rightarrow> 'd \<Rightarrow> error option \<times> 'd Migrator \<times> 'd" where
  "oneDown m dryRun d =
     (case Stepper_Down (steps m) (cachedVersion m) of
        Inl err \<Rightarrow> (Some err, m, d)
      | Inr (info, downf) \<Rightarrow>
          let (err, d) =
                (case downf of
                   None \<Rightarrow> Database_DefaultStepFunc (db m) info dryRun d
                 | Some f \<Rightarrow> f (db m) info dryRun d)
          in (err, if err = None \<and> \<not> dryRun then m\<lparr>cachedVersion := To info\<rparr> else m, d))"

definition OneUpCtx :: "'d Migrator \<Rightarrow> 'd \<Rightarrow> error option \<times> 'd Migrator \<times> 'd" where
  "OneUpCtx m d =
     (case oneUp m False d of
        (Some err, m, d) \<Rightarrow> (Some (Errorf ''one up: %w'' [err]), m, d)
      | (None, m, d) \<Rightarrow> (None, m, d))"

definition OneDownCtx :: "'d Migrator \<Rightarrow> 'd \<Rightarrow> error option \<times> 'd Migrator \<times> 'd" where
  "OneDownCtx m d =
     (case oneDown m False d of
        (Some err, m, d) \<Rightarrow> (Some (Errorf ''one down: %w'' [err]), m, d)
      | (None, m, d) \<Rightarrow> (None, m, d))"

definition OneUpDryRunCtx :: "'d Migrator \<Rightarrow> 'd \<Rightarrow> error option \<times> 'd Migrator \<times> 'd" where
  "OneUpDryRunCtx m d =
     (case oneUp m True d of
        (Some err, m, d) \<Rightarrow> (Some (Errorf ''one up dry run: %w'' [err]), m, d)
      | (None, m, d) \<Rightarrow> (None, m, d))"

definition OneDownDryRunCtx :: "'d Migrator \<Rightarrow> 'd \<Rightarrow> error option \<times> 'd Migrator \<times> 'd" where
  "OneDownDryRunCtx m d =
     (case oneDown m True d of
        (Some err, m, d) \<Rightarrow> (Some (Errorf ''one down dry run: %w'' [err]), m, d)
      | (None, m, d) \<Rightarrow> (None, m, d))"

text \<open>
  The loops of \<open>AllUpCtx\<close> and \<open>AllDownCtx\<close> have no bound of their own: with a
  \<open>Stepper\<close> that always has a next step they never return, which is the value \<open>None\<close>.
\<close>

partial_function (option) AllUpCtx ::
  "'d Migrator \<Rightarrow> 'd \<Rightarrow> (error option \<times> 'd Migrator \<times> 'd) option" where
  "AllUpCtx m d =
     (case oneUp m False d of
        (Some err, m, d) \<Rightarrow>
          if Is err ErrEndOfSteps then Some (None, m, d)
          else Some (Some (Errorf ''all up: %w'' [err]), m, d)
      | (None, m, d) \<Rightarrow> AllUpCtx m d)"

partial_function (option) AllDownCtx ::
  "'d Migrator \<Rightarrow> 'd \<Rightarrow> (error option \<times> 'd Migrator \<times> 'd) option" where
  "AllDownCtx m d =
     (case oneDown m False d of
        (Some err, m, d) \<Rightarrow>
          if Is err ErrEndOfSteps then Some (None, m, d)
          else Some (Some (Errorf ''all down: %w'' [err]), m, d)
      | (None, m, d) \<Rightarrow> AllDownCtx m d)"

text \<open>
  The methods without a context call the ones above with \<open>context.Background()\<close>.
\<close>

abbreviation Migrator_Version ::
  "'d Migrator \<Rightarrow> 'd \<Rightarrow> (Version \<times> error option) \<times> 'd Migrator \<times> 'd" where
  "Migrator_Version \<equiv> VersionCtx"

abbreviation Init :: "'d Migrator \<Rightarrow> 'd \<Rightarrow> error option \<times> 'd Migrator \<times> 'd" where
  "Init \<equiv> InitCtx"

abbreviation InitDryRun :: "'d Migrator \<Rightarrow> 'd \<Rightarrow> error option \<times> 'd Migrator \<times> 'd" where
  "InitDryRun \<equiv> InitDryRunCtx"

abbreviation OneUp :: "'d Migrator \<Rightarrow> 'd \<Rightarrow> error option \<times> 'd Migrator \<times> 'd" where
  "OneUp \<equiv> OneUpCtx"

abbreviation OneDown :: "'d Migrator \<Rightarrow> 'd \<Rightarrow> error option \<times> 'd Migrator \<times> 'd" where
  "OneDown \<equiv> OneDownCtx"

abbreviation OneUpDryRun :: "'d Migrator \<Rightarrow> 'd \<Rightarrow> error option \<times> 'd Migrator \<times> 'd" where
  "OneUpDryRun \<equiv> OneUpDryRunCtx"

abbreviation OneDownDryRun :: "'d Migrator \<Rightarrow> 'd \<Rightarrow> error option \<times> 'd Migrator \<times> 'd" where
  "OneDownDryRun \<equiv> OneDownDryRunCtx"

abbreviation AllUp ::
  "'d Migrator \<Rightarrow> 'd \<Rightarrow> (error option \<times> 'd Migrator \<times> 'd) option" where
  "AllUp \<equiv> AllUpCtx"

abbreviation AllDown ::
  "'d Migrator \<Rightarrow> 'd \<Rightarrow> (error option \<times> 'd Migrator \<times> 'd) option" where
  "AllDown \<equiv> AllDownCtx"

section \<open>The SQL database (sqldb.go)\<close>

text \<open>
  \<open>database/sql\<close> is a parameter of the model: the operations of \<open>*sql.DB\<close> and
  \<open>*sql.Tx\<close> that the package calls, each a function on the state of the engine. Their
  errors are values of other packages (a message here). \<open>Exec\<close> returns its error or
  its \<open>Result\<close>, of which the package reads \<open>RowsAffected\<close> (an error or a count);
  \<open>QueryRow_Scan\<close> is \<open>QueryRow(query).Scan(&id, &checksum)\<close>.
\<close>

datatype sqlarg = IntArg int | StrArg string

record 'd sql =
  sql_BeginTx :: "bool \<Rightarrow> 'd \<Rightarrow> string option \<times> 'd"
  sql_Exec :: "string \<Rightarrow> sqlarg list \<Rightarrow> 'd \<Rightarrow> (string + (string + int)) \<times> 'd"
  sql_QueryRow_Scan :: "string \<Rightarrow> 'd \<Rightarrow> (string + int \<times> string) \<times> 'd"
  sql_Rollback :: "'d \<Rightarrow> string option \<times> 'd"
  sql_Commit :: "'d \<Rightarrow> string option \<times> 'd"

record Queries =
  CreateTableQuery :: string
  InitTableQuery :: string
  VersionQuery :: string
  SetVersionQuery :: string

text \<open>The struct \<open>sqlDB\<close>; its fields \<open>db\<close> and \<open>q\<close> carry the names of their accessors.\<close>

record 'd sqlDB =
  DB :: "'d sql"
  Queries :: Queries

definition NewSQLDB :: "'d sql \<Rightarrow> Queries \<Rightarrow> 'd sqlDB" where
  "NewSQLDB e q = \<lparr>DB = e, Queries = q\<rparr>"

definition StartTransaction :: "'d sqlDB \<Rightarrow> bool \<Rightarrow> 'd \<Rightarrow> error option \<times> 'd" where
  "StartTransaction s readOnly d =
     (case sql_BeginTx (DB s) readOnly d of
        (Some err, d) \<Rightarrow> (Some (Errorf ''%w: %w'' [ErrBeginTx, Foreign err]), d)
      | (None, d) \<Rightarrow> (None, d))"

definition FinalizeTransaction ::
  "'d sqlDB \<Rightarrow> error option \<Rightarrow> bool \<Rightarrow> 'd \<Rightarrow> error option \<times> 'd" where
  "FinalizeTransaction s err dryRun d =
     (if err \<noteq> None \<or> dryRun then
        (case sql_Rollback (DB s) d of
           (Some rollbackErr, d) \<Rightarrow>
             (case err of
                Some e \<Rightarrow>
                  (Some (Errorf ''%w; %w: %w'' [e, ErrRollbackTx, Foreign rollbackErr]), d)
              | None \<Rightarrow> (Some (Errorf ''%w: %w'' [ErrRollbackTx, Foreign rollbackErr]), d))
         | (None, d) \<Rightarrow> (err, d))
      else
        (case sql_Commit (DB s) d of
           (Some commitErr, d) \<Rightarrow> (Some (Errorf ''%w: %w'' [ErrCommitTx, Foreign commitErr]), d)
         | (None, d) \<Rightarrow> (err, d)))"

definition InitVersion :: "'d sqlDB \<Rightarrow> Version \<Rightarrow> bool \<Rightarrow> 'd \<Rightarrow> error option \<times> 'd" where
  "InitVersion s v dryRun d =
     (let (err, d) =
            (case StartTransaction s False d of
               (Some err, d) \<Rightarrow> (Some err, d)
             | (None, d) \<Rightarrow>
                 let (err, d) =
                       (case sql_Exec (DB s) (CreateTableQuery (Queries s)) [] d of
                          (Inl err, d) \<Rightarrow> (Some (Foreign err), d)
                        | (Inr _, d) \<Rightarrow>
                            (case sql_Exec (DB s) (InitTableQuery (Queries s))
                                    [IntArg (ID v), StrArg (EncodeToString (Checksum v))] d of
                               (Inl err, d) \<Rightarrow> (Some (Foreign err), d)
                             | (Inr _, d) \<Rightarrow> (None, d)))
                 in FinalizeTransaction s err dryRun d)
      in (case err of
            Some e \<Rightarrow> (Some (Errorf ''%w: %w'' [ErrNotInitialized, e]), d)
          | None \<Rightarrow> (None, d)))"

definition VersionTx :: "'d sqlDB \<Rightarrow> 'd \<Rightarrow> (Version \<times> error option) \<times> 'd" where
  "VersionTx s d =
     (case sql_QueryRow_Scan (DB s) (VersionQuery (Queries s)) d of
        (Inl err, d) \<Rightarrow>
          ((\<lparr>ID = 0, Checksum = replicate 32 0\<rparr>,
            Some (Errorf ''%w: %w'' [ErrNotInitialized, Foreign err])), d)
      | (Inr (id', checksum), d) \<Rightarrow> (MakeVersion id' checksum, d))"

definition sqlDB_Version :: "'d sqlDB \<Rightarrow> 'd \<Rightarrow> (Version \<times> error option) \<times> 'd" where
  "sqlDB_Version s d =
     (case StartTransaction s True d of
        (Some err, d) \<Rightarrow> ((badVersion, Some err), d)
      | (None, d) \<Rightarrow>
          let ((v, err), d) = VersionTx s d;
              (err, d) = FinalizeTransaction s err False d
          in ((v, err), d))"

definition SetVersionTx :: "'d sqlDB \<Rightarrow> stepInfo \<Rightarrow> bool \<Rightarrow> 'd \<Rightarrow> error option \<times> 'd" where
  "SetVersionTx s info dryRun d =
     (case sql_Exec (DB s) (SetVersionQuery (Queries s))
             [IntArg (ID (To info)), StrArg (ChecksumString (To info)),
              IntArg (ID (From info)), StrArg (ChecksumString (From info))] d of
        (Inl err, d) \<Rightarrow> (Some (Foreign err), d)
      | (Inr result, d) \<Rightarrow>
          (case result of
             Inl err \<Rightarrow> (Some (Foreign err), d)
           | Inr rowsAffected \<Rightarrow>
               if rowsAffected \<noteq> 1 then (Some ErrBadVersion, d) else (None, d)))"

definition SetVersion :: "'d sqlDB \<Rightarrow> stepInfo \<Rightarrow> bool \<Rightarrow> 'd \<Rightarrow> error option \<times> 'd" where
  "SetVersion s info dryRun d =
     (case StartTransaction s False d of
        (Some err, d) \<Rightarrow> (Some err, d)
      | (None, d) \<Rightarrow>
          let (err, d) = SetVersionTx s info dryRun d
          in FinalizeTransaction s err dryRun d)"

definition DefaultStepFunc :: "'d sqlDB \<Rightarrow> stepInfo \<Rightarrow> bool \<Rightarrow> 'd \<Rightarrow> error option \<times> 'd" where
  "DefaultStepFunc s info dryRun d = SetVersion s info dryRun d"

text \<open>\<open>*sqlDB\<close> as an \<open>SQLDB\<close> and as a \<open>Database\<close>.\<close>

definition sqlDB_SQLDB :: "'d sqlDB \<Rightarrow> 'd SQLDB" where
  "sqlDB_SQLDB s =
     \<lparr>SQLDB_StartTransaction = StartTransaction s,
      SQLTx_FinalizeTransaction = FinalizeTransaction s,
      SQLDB_VersionTx = VersionTx s,
      SQLDB_SetVersion = SetVersion s,
      SQLDB_SetVersionTx = SetVersionTx s\<rparr>"

definition sqlDB_Database :: "'d sqlDB \<Rightarrow> 'd Database" where
  "sqlDB_Database s =
     \<lparr>Database_InitVersion = InitVersion s,
      Database_Version = sqlDB_Version s,
      Database_DefaultStepFunc = DefaultStepFunc s,
      Database_SQLDB = Some (sqlDB_SQLDB s)\<rparr>"

subsection \<open>TxF\<close>

type_synonym 'd TxFunc = "stepInfo \<Rightarrow> bool \<Rightarrow> 'd \<Rightarrow> error option \<times> 'd"

text \<open>
  The loop over the callbacks: \<open>Inl err\<close> when it leaves the function with
  \<open>return err\<close>, \<open>Inr cancel\<close> when it runs to its end.
\<close>

fun TxF_loop ::
  "'d TxFunc list \<Rightarrow> stepInfo \<Rightarrow> bool \<Rightarrow> bool \<Rightarrow> 'd \<Rightarrow> (error + bool) \<times> 'd" where
  "TxF_loop [] info dryRun cancel d = (Inr cancel, d)"
| "TxF_loop (f # fs) info dryRun cancel d =
     (case f info dryRun d of
        (Some err, d) \<Rightarrow>
          if \<not> Is err ErrCancel then (Inl err, d)
          else TxF_loop fs info dryRun True d
      | (None, d) \<Rightarrow> TxF_loop fs info dryRun cancel d)"

text \<open>
  The deferred functions run last in, first out: \<open>FinalizeTransaction\<close>, then the one
  that drops a cancel or adds the step to the message (then the one that only logs).
\<close>

definition TxF :: "'d TxFunc list \<Rightarrow> 'd StepFunc" where
  "TxF fs gdb info dryRun d =
     (case Database_SQLDB gdb of
        None \<Rightarrow> (Some (Errorf ''txf: %w'' [ErrNotSQLDB]), d)
      | Some sdb \<Rightarrow>
          let (err, d) =
                (case SQLDB_StartTransaction sdb False d of
                   (Some err, d) \<Rightarrow> (Some err, d)
                 | (None, d) \<Rightarrow>
                     let (err, d) =
                           (case SQLDB_VersionTx sdb d of
                              ((dbv, Some err), d) \<Rightarrow> (Some err, d)
                            | ((dbv, None), d) \<Rightarrow>
                                if dbv \<noteq> From info then (Some (Errorf ''db is %v'' []), d)
                                else
                                  (case TxF_loop fs info dryRun False d of
                                     (Inl err, d) \<Rightarrow> (Some err, d)
                                   | (Inr cancel, d) \<Rightarrow>
                                       if cancel then (Some ErrCancel, d)
                                       else
                                         (case SQLDB_SetVersionTx sdb info dryRun d of
                                            (Some err, d) \<Rightarrow> (Some err, d)
                                          | (None, d) \<Rightarrow> (None, d))))
                     in SQLTx_FinalizeTransaction sdb err dryRun d)
          in (case err of
                None \<Rightarrow> (None, d)
              | Some e \<Rightarrow>
                  if Is e ErrCancel then (None, d)
                  else if dryRun
                  then (Some (Errorf ''txf %v -> %v dry run: %w'' [e]), d)
                  else (Some (Errorf ''txf %v -> %v: %w'' [e]), d)))"

section \<open>Notions the statements use\<close>

text \<open>A call fails with an error wrapping \<open>target\<close>.\<close>

definition fails_with :: "error option \<Rightarrow> error \<Rightarrow> bool" where
  "fails_with r target = (case r of None \<Rightarrow> False | Some err \<Rightarrow> Is err target)"

definition err_of :: "error + 'a \<Rightarrow> error option" where
  "err_of r = (case r of Inl err \<Rightarrow> Some err | Inr _ \<Rightarrow> None)"

text \<open>
  The chain of versions as the specification words it: the version that follows a step
  with checksum \<open>prev\<close> at index \<open>n\<close> has the digest of \<open>prev\<close>, the little-endian
  eight bytes of \<open>n\<close> and the name; and so on along the names.
\<close>

fun chain ::
  "(byte list \<Rightarrow> byte list) \<Rightarrow> nat \<Rightarrow> byte list \<Rightarrow> string list \<Rightarrow> Version list" where
  "chain Sum256 n prev [] = []"
| "chain Sum256 n prev (nm # nms) =
     (let c = Sum256 (prev @ AppendUint64 [] (word_of_nat n) @ bytes nm)
      in \<lparr>ID = int n, Checksum = c\<rparr> # chain Sum256 (Suc n) c nms)"

text \<open>
  What the callbacks of \<open>TxF\<close> return: \<open>invoke_all\<close> calls every callback in order and
  collects the results; a result cancels when it is an error wrapping \<open>ErrCancel\<close>.
\<close>

definition cancels :: "error option \<Rightarrow> bool" where
  "cancels r = (case r of None \<Rightarrow> False | Some err \<Rightarrow> Is err ErrCancel)"

fun invoke_all ::
  "'d TxFunc list \<Rightarrow> stepInfo \<Rightarrow> bool \<Rightarrow> 'd \<Rightarrow> error option list \<times> 'd" where
  "invoke_all [] info dryRun d = ([], d)"
| "invoke_all (f # fs) info dryRun d =
     (let (r, d) = f info dryRun d;
          (rs, d) = invoke_all fs info dryRun d
      in (r # rs, d))"

text \<open>The error that \<open>FinalizeTransaction\<close> leaves when it is given \<open>err\<close>.\<close>

definition after_rollback :: "error \<Rightarrow> string option \<Rightarrow> error" where
  "after_rollback err r =
     (case r of
        None \<Rightarrow> err
      | Some rollbackErr \<Rightarrow> Errorf ''%w; %w: %w'' [err, ErrRollbackTx, Foreign rollbackErr])"

text \<open>
  An error is the result of \<open>fmt.Errorf(opn + ": %w", err)\<close>: wrapped with the name of an
  operation.
\<close>

definition wrapped_by :: "string \<Rightarrow> error \<Rightarrow> bool" where
  "wrapped_by opn err =
     (case err of Errorf f es \<Rightarrow> f = opn @ '': %w'' \<and> length es = 1 | _ \<Rightarrow> False)"

text \<open>\<open>n\<close> one-step migrations in a row, all of which succeed.\<close>

fun oneUps :: "nat \<Rightarrow> 'd Migrator \<Rightarrow> 'd \<Rightarrow> ('d Migrator \<times> 'd) option" where
  "oneUps 0 m d = Some (m, d)"
| "oneUps (Suc n) m d =
     (case oneUp m False d of
        (None, m, d) \<Rightarrow> oneUps n m d
      | (Some err, m, d) \<Rightarrow> None)"

fun oneDowns :: "nat \<Rightarrow> 'd Migrator \<Rightarrow> 'd \<Rightarrow> ('d Migrator \<times> 'd) option" where
  "oneDowns 0 m d = Some (m, d)"
| "oneDowns (Suc n) m d =
     (case oneDown m False d of
        (None, m, d) \<Rightarrow> oneDowns n m d
      | (Some err, m, d) \<Rightarrow> None)"

section \<open>Concrete inputs\<close>

text \<open>
  A stand-in for the digest, to run the definitions: the last 32 bytes of its input in
  reverse, padded with zeros.
\<close>

definition demo_Sum256 :: "byte list \<Rightarrow> byte list" where
  "demo_Sum256 b = take 32 (rev b @ replicate 32 0)"

text \<open>The mock database of the tests of the migrator.\<close>

record mockDatabase =
  mock_version :: Version
  initialized :: bool
  initError :: "error option"
  setVersionErr :: "error option"
  versionErr :: "error option"

definition mock_InitVersion ::
  "Version \<Rightarrow> bool \<Rightarrow> mockDatabase \<Rightarrow> error option \<times> mockDatabase" where
  "mock_InitVersion v dryRun m =
     (if initialized m then (Some ErrAlreadyInitialized, m)
      else if initError m \<noteq> None then (initError m, m)
      else (None, if \<not> dryRun then m\<lparr>mock_version := v, initialized := True\<rparr> else m))"

definition mock_Version :: "mockDatabase \<Rightarrow> (Version \<times> error option) \<times> mockDatabase" where
  "mock_Version m =
     (if versionErr m \<noteq> None then ((badVersion, versionErr m), m)
      else ((mock_version m, None), m))"

definition mock_DefaultStepFunc ::
  "stepInfo \<Rightarrow> bool \<Rightarrow> mockDatabase \<Rightarrow> error option \<times> mockDatabase" where
  "mock_DefaultStepFunc info dryRun m =
     (if setVersionErr m \<noteq> None then (setVersionErr m, m)
      else (None, if \<not> dryRun then m\<lparr>mock_version := To info\<rparr> else m))"

definition mockDatabase_Database :: "mockDatabase Database" where
  "mockDatabase_Database =
     \<lparr>Database_InitVersion = mock_InitVersion,
      Database_Version = mock_Version,
      Database_DefaultStepFunc = mock_DefaultStepFunc,
      Database_SQLDB = None\<rparr>"

text \<open>
  The registry of the tests: \<open>NewSteps("test-db")\<close>, then \<open>Append("step1", nil, nil)\<close>
  and \<open>Append("step2", nil, nil)\<close>.
\<close>

definition demo_calls ::
  "(string \<times> mockDatabase StepFunc option \<times> mockDatabase StepFunc option) list" where
  "demo_calls = [(''step1'', None, None), (''step2'', None, None)]"

text \<open>The registry that a sequence of calls leaves; the zero value when it left none.\<close>

definition registry_of :: "(error + 'd Steps) option \<Rightarrow> 'd Steps" where
  "registry_of r = (case r of Some (Inr s) \<Rightarrow> s | _ \<Rightarrow> \<lparr>Steps.steps = []\<rparr>)"

definition demo_Steps :: "mockDatabase Steps" where
  "demo_Steps = registry_of (appends demo_Sum256 demo_calls (NewSteps demo_Sum256 ''test-db''))"

definition errMock :: error where
  "errMock = Foreign ''mock error''"

text \<open>A mock database holding version \<open>v\<close>, and a migrator on the registry above.\<close>

definition demo_db :: "Version \<Rightarrow> mockDatabase" where
  "demo_db v =
     \<lparr>mock_version = v, initialized = True, initError = None, setVersionErr = None,
      versionErr = None\<rparr>"

definition demo_Migrator :: "Version \<Rightarrow> mockDatabase Migrator" where
  "demo_Migrator v =
     \<lparr>db = mockDatabase_Database, steps = Steps_Stepper demo_Steps, cachedVersion = v\<rparr>"

definition demo_v0 :: Version where
  "demo_v0 = version (Steps.steps demo_Steps ! 0)"

definition demo_v1 :: Version where
  "demo_v1 = version (Steps.steps demo_Steps ! 1)"

definition demo_v2 :: Version where
  "demo_v2 = version (Steps.steps demo_Steps ! 2)"


text \<open>
  The mock database of \<open>TestMigratorInit\<close>: not initialized, and its \<open>Version\<close> fails.
\<close>

definition demo_db_uninit :: mockDatabase where
  "demo_db_uninit =
     \<lparr>mock_version = \<lparr>ID = 0, Checksum = replicate 32 0\<rparr>, initialized = False,
      initError = None, setVersionErr = None, versionErr = Some errMock\<rparr>"

text \<open>
  The same registry with a second step whose up operation fails with \<open>ErrAbort\<close>, and a
  migrator on it.
\<close>

definition abortFunc :: "mockDatabase StepFunc" where
  "abortFunc gdb info dryRun d = (Some ErrAbort, d)"

definition demo_Steps_abort :: "mockDatabase Steps" where
  "demo_Steps_abort =
     registry_of (appends demo_Sum256 [(''step1'', None, None), (''step2'', Some abortFunc, None)]
       (NewSteps demo_Sum256 ''test-db''))"

definition demo_Migrator_abort :: "Version \<Rightarrow> mockDatabase Migrator" where
  "demo_Migrator_abort v =
     \<lparr>db = mockDatabase_Database, steps = Steps_Stepper demo_Steps_abort, cachedVersion = v\<rparr>"

text \<open>
  An engine to run the SQL database on: one version row, the view of the open transaction,
  and a journal of the calls it receives. The queries are those of the tests, with the
  identifiers unquoted. The versions and the callback are those of \<open>TestTxF\<close>.
\<close>

datatype sqlcall =
    CallBeginTx | CallQueryRow string | CallExec string | CallRollback | CallCommit
  | CallTxFunc nat

record memdb =
  committed :: "(int \<times> string) option"
  pending :: "(int \<times> string) option"
  journal :: "sqlcall list"

definition demo_Q :: Queries where
  "demo_Q =
     \<lparr>CreateTableQuery = ''CREATE TABLE migrate_version (id INTEGER NOT NULL, checksum TEXT NOT NULL)'',
      InitTableQuery = ''INSERT INTO migrate_version (id, checksum) VALUES (?, ?)'',
      VersionQuery = ''SELECT id, checksum FROM migrate_version LIMIT 1'',
      SetVersionQuery = ''UPDATE migrate_version SET id = ?, checksum = ? WHERE id = ? AND checksum = ?''\<rparr>"

fun mem_update :: "sqlarg list \<Rightarrow> memdb \<Rightarrow> (string + (string + int)) \<times> memdb" where
  "mem_update [IntArg ti, StrArg tc, IntArg fi, StrArg fc] st =
     (if pending st = Some (fi, fc) then (Inr (Inr 1), st\<lparr>pending := Some (ti, tc)\<rparr>)
      else (Inr (Inr 0), st))"
| "mem_update _ st = (Inl ''sql: wrong arguments'', st)"

fun mem_insert :: "sqlarg list \<Rightarrow> memdb \<Rightarrow> (string + (string + int)) \<times> memdb" where
  "mem_insert [IntArg i, StrArg c] st = (Inr (Inr 1), st\<lparr>pending := Some (i, c)\<rparr>)"
| "mem_insert _ st = (Inl ''sql: wrong arguments'', st)"

definition mem_sql :: "Queries \<Rightarrow> memdb sql" where
  "mem_sql q =
     \<lparr>sql_BeginTx = (\<lambda>readOnly st.
        (None, st\<lparr>pending := committed st, journal := journal st @ [CallBeginTx]\<rparr>)),
      sql_Exec = (\<lambda>query args st.
        let st = st\<lparr>journal := journal st @ [CallExec query]\<rparr> in
        if query = SetVersionQuery q then mem_update args st
        else if query = InitTableQuery q then mem_insert args st
        else (Inr (Inr 0), st)),
      sql_QueryRow_Scan = (\<lambda>query st.
        let st = st\<lparr>journal := journal st @ [CallQueryRow query]\<rparr> in
        case pending st of
          None \<Rightarrow> (Inl ''sql: no rows in result set'', st)
        | Some row \<Rightarrow> (Inr row, st)),
      sql_Rollback = (\<lambda>st.
        (None, st\<lparr>pending := committed st, journal := journal st @ [CallRollback]\<rparr>)),
      sql_Commit = (\<lambda>st.
        (None, st\<lparr>committed := pending st, journal := journal st @ [CallCommit]\<rparr>))\<rparr>"

definition demo_sqlDB :: "memdb sqlDB" where
  "demo_sqlDB = NewSQLDB (mem_sql demo_Q) demo_Q"

definition txf_v1 :: Version where
  "txf_v1 = \<lparr>ID = 100, Checksum = [1, 2, 3, 4] @ replicate 28 0\<rparr>"

definition txf_v2 :: Version where
  "txf_v2 = \<lparr>ID = 123, Checksum = [5, 6, 7, 8] @ replicate 28 0\<rparr>"

definition txf_info :: stepInfo where
  "txf_info = \<lparr>Name = ''step'', From = txf_v1, To = txf_v2\<rparr>"

definition mem_at :: "Version \<Rightarrow> memdb" where
  "mem_at v = \<lparr>committed = Some (ID v, ChecksumString v), pending = None, journal = []\<rparr>"

definition mockTxF :: "nat \<Rightarrow> error option \<Rightarrow> memdb TxFunc" where
  "mockTxF i funcError info dryRun st = (funcError, st\<lparr>journal := journal st @ [CallTxFunc i]\<rparr>)"

definition fs_cancel :: "memdb TxFunc list" where
  "fs_cancel = [mockTxF 0 None, mockTxF 1 (Some ErrCancel), mockTxF 2 None]"

definition fs_abort :: "memdb TxFunc list" where
  "fs_abort = [mockTxF 0 (Some ErrCancel), mockTxF 1 (Some ErrAbort), mockTxF 2 None]"

section \<open>Lemmas on the registry\<close>

lemmas sentinel_defs =
  ErrBadParameters_def ErrAlreadyInitialized_def ErrBadVersionID_def
  ErrBadVersionChecksum_def ErrNotInitialized_def ErrBadVersion_def ErrEndOfSteps_def
  ErrNotSQLDB_def ErrBeginTx_def ErrCommitTx_def ErrRollbackTx_def ErrCancel_def
  ErrAbort_def

lemma Steps_Append_ok:
  "nm \<noteq> [] \<Longrightarrow> Steps.steps s \<noteq> [] \<Longrightarrow>
   Steps_Append Sum256 nm upf downf s =
     Some (None, s\<lparr>Steps.steps := Steps.steps s @
        [\<lparr>name = nm, up = upf, down = downf,
          version = \<lparr>ID = int (length (Steps.steps s)),
            Checksum = Sum256 (Checksum (version (last (Steps.steps s))) @
              AppendUint64 [] (word_of_nat (length (Steps.steps s))) @ bytes nm)\<rparr>\<rparr>]\<rparr>)"
  by (simp add: Steps_Append_def Let_def last_conv_nth AppendUint64_def)

lemma Steps_Append_empty:
  "Steps_Append Sum256 [] upf downf s =
     Some (Some (Errorf ''append step: name is empty'' []), s)"
  by (simp add: Steps_Append_def)

lemma appends_chain:
  "appends Sum256 calls s = Some (Inr s') \<Longrightarrow> Steps.steps s \<noteq> [] \<Longrightarrow>
   map version (Steps.steps s') =
     map version (Steps.steps s) @
       chain Sum256 (length (Steps.steps s)) (Checksum (version (last (Steps.steps s))))
         (map fst calls)
   \<and> map name (Steps.steps s') = map name (Steps.steps s) @ map fst calls"
proof (induction calls arbitrary: s)
  case Nil
  then show ?case by simp
next
  case (Cons c calls)
  obtain nm upf downf where c: "c = (nm, upf, downf)" by (cases c)
  show ?case
  proof (cases "nm = []")
    case True
    with Cons.prems c show ?thesis by (simp add: Steps_Append_empty)
  next
    case False
    define s1 where "s1 = s\<lparr>Steps.steps := Steps.steps s @
        [\<lparr>name = nm, up = upf, down = downf,
          version = \<lparr>ID = int (length (Steps.steps s)),
            Checksum = Sum256 (Checksum (version (last (Steps.steps s))) @
              AppendUint64 [] (word_of_nat (length (Steps.steps s))) @ bytes nm)\<rparr>\<rparr>]\<rparr>"
    have ap: "Steps_Append Sum256 nm upf downf s = Some (None, s1)"
      using False Cons.prems(2) by (simp add: Steps_Append_ok s1_def)
    have s1: "Steps.steps s1 = Steps.steps s @
        [\<lparr>name = nm, up = upf, down = downf,
          version = \<lparr>ID = int (length (Steps.steps s)),
            Checksum = Sum256 (Checksum (version (last (Steps.steps s))) @
              AppendUint64 [] (word_of_nat (length (Steps.steps s))) @ bytes nm)\<rparr>\<rparr>]"
      by (simp add: s1_def)
    from ap Cons.prems c have r: "appends Sum256 calls s1 = Some (Inr s')" by simp
    have ne: "Steps.steps s1 \<noteq> []" using s1 by simp
    from Cons.IH[OF r ne] show ?thesis
      using False c s1 by (simp add: Let_def)
  qed
qed

lemma chain_length: "length (chain Sum256 n prev nms) = length nms"
  by (induction nms arbitrary: n prev) (simp_all add: Let_def)

lemma chain_ID: "i < length nms \<Longrightarrow> ID (chain Sum256 n prev nms ! i) = int (n + i)"
proof (induction nms arbitrary: n prev i)
  case Nil then show ?case by simp
next
  case (Cons a nms) then show ?case by (cases i) (simp_all add: Let_def)
qed

lemma chain_Checksum:
  "i < length nms \<Longrightarrow>
   Checksum (chain Sum256 n prev nms ! i) =
     Sum256 ((if i = 0 then prev else Checksum (chain Sum256 n prev nms ! (i - 1))) @
             AppendUint64 [] (word_of_nat (n + i)) @ bytes (nms ! i))"
proof (induction nms arbitrary: n prev i)
  case Nil then show ?case by simp
next
  case (Cons a nms)
  show ?case
  proof (cases i)
    case 0 then show ?thesis by (simp add: Let_def)
  next
    case (Suc j)
    with Cons.prems have j: "j < length nms" by simp
    show ?thesis using Cons.IH[OF j, of "Suc n"] Suc
      by (cases j) (simp_all add: Let_def)
  qed
qed

text \<open>The versions of a registry are the anchor followed by the chain of the names.\<close>

lemma registry_versions:
  assumes "appends Sum256 calls (NewSteps Sum256 root) = Some (Inr s)"
  shows "map version (Steps.steps s) =
           \<lparr>ID = 0, Checksum = Sum256 (bytes root)\<rparr> #
             chain Sum256 1 (Sum256 (bytes root)) (map fst calls)"
  using appends_chain[OF assms] by (simp add: NewSteps_def)

lemma registry_length:
  assumes "appends Sum256 calls (NewSteps Sum256 root) = Some (Inr s)"
  shows "length (Steps.steps s) = Suc (length calls)"
proof -
  have "length (map version (Steps.steps s)) = Suc (length calls)"
    by (simp only: registry_versions[OF assms]) (simp add: chain_length)
  then show ?thesis by simp
qed

lemma registry_ID:
  assumes "appends Sum256 calls (NewSteps Sum256 root) = Some (Inr s)"
    and "i < length (Steps.steps s)"
  shows "ID (version (Steps.steps s ! i)) = int i"
proof -
  have "version (Steps.steps s ! i) = map version (Steps.steps s) ! i"
    using assms(2) by simp
  also have "\<dots> = (\<lparr>ID = 0, Checksum = Sum256 (bytes root)\<rparr> #
             chain Sum256 1 (Sum256 (bytes root)) (map fst calls)) ! i"
    by (simp only: registry_versions[OF assms(1)])
  finally show ?thesis
    using assms(2) registry_length[OF assms(1)]
    by (cases i) (simp_all add: chain_ID)
qed

lemma le64_byte:
  fixes w :: "64 word"
  shows "unat (ucast (drop_bit n w) :: byte) = unat w div 2 ^ n mod 256"
proof -
  have "unat (ucast (drop_bit n w) :: byte) = take_bit 8 (drop_bit n (unat w))"
    by (simp only: unsigned_ucast_eq unat_drop_bit_eq) simp
  then show ?thesis by (simp add: take_bit_eq_mod drop_bit_eq_div)
qed

lemma le64_bytes:
  assumes "i < 2 ^ 64"
  shows "map unat (AppendUint64 [] (word_of_nat i)) = map (\<lambda>k. i div 256 ^ k mod 256) [0..<8]"
proof -
  have u: "unat (word_of_nat i :: 64 word) = i" using assms by (simp add: unat_of_nat)
  have e: "[0..<8] = [0,1,2,3,4,5,6,7::nat]" by (simp add: upt_rec)
  have z: "unat (ucast (word_of_nat i :: 64 word) :: byte) = i mod 256"
    using le64_byte[of 0 "word_of_nat i"] u by simp
  show ?thesis
    unfolding AppendUint64_def e
    by (simp add: le64_byte u z)
qed


lemma Is_same [simp]: "Is e e"
  by (cases e) simp_all

lemma checkID_out: "i < 0 \<or> i \<ge> int (length (Steps.steps s)) \<Longrightarrow>
  checkID s i = Some (Errorf ''%w: id %d'' [ErrBadVersionID])"
  by (simp add: checkID_def)

lemma checkID_in: "0 \<le> i \<Longrightarrow> i < int (length (Steps.steps s)) \<Longrightarrow> checkID s i = None"
  by (simp add: checkID_def)

lemma check_None_iff:
  "check s v = None \<longleftrightarrow>
     0 \<le> ID v \<and> ID v < int (length (Steps.steps s)) \<and> version (Steps.steps s ! nat (ID v)) = v"
  by (auto simp: check_def checkID_def Let_def)

lemma registry_check:
  assumes "appends Sum256 calls (NewSteps Sum256 root) = Some (Inr s)"
    and "i < length (Steps.steps s)"
  shows "check s (version (Steps.steps s ! i)) = None"
  using registry_ID[OF assms] assms(2) by (simp add: check_None_iff)


lemma Steps_Up_last:
  "check s v = None \<Longrightarrow> ID v = int (length (Steps.steps s)) - 1 \<Longrightarrow>
   Steps_Up s v = Inl (Errorf ''%w: %v'' [ErrEndOfSteps])"
  by (simp add: Steps_Up_def)

lemma Steps_Down_first:
  "check s v = None \<Longrightarrow> ID v = 0 \<Longrightarrow>
   Steps_Down s v = Inl (Errorf ''%w: %v'' [ErrEndOfSteps])"
  by (simp add: Steps_Down_def)

lemma Steps_Up_bad:
  "check s v \<noteq> None \<Longrightarrow> Steps_Up s v = Inl (Errorf ''%w: %v'' [ErrBadVersion])"
  by (auto simp: Steps_Up_def)

lemma Steps_Down_bad:
  "check s v \<noteq> None \<Longrightarrow> Steps_Down s v = Inl (Errorf ''%w: %v'' [ErrBadVersion])"
  by (auto simp: Steps_Down_def)

lemma Steps_Up_ok:
  assumes "check s v = None" and "ID v \<noteq> int (length (Steps.steps s)) - 1"
  shows "Steps_Up s v =
     Inr (\<lparr>Name = name (Steps.steps s ! nat (ID v + 1)), From = v,
           To = version (Steps.steps s ! nat (ID v + 1))\<rparr>,
          up (Steps.steps s ! nat (ID v + 1)))"
proof -
  from assms(1) have "version (Steps.steps s ! nat (ID v)) = v"
    by (simp add: check_None_iff)
  then show ?thesis using assms by (simp add: Steps_Up_def Let_def)
qed

lemma Steps_Down_ok:
  assumes "check s v = None" and "ID v \<noteq> 0"
  shows "Steps_Down s v =
     Inr (\<lparr>Name = name (Steps.steps s ! nat (ID v)), From = v,
           To = version (Steps.steps s ! nat (ID v - 1))\<rparr>,
          down (Steps.steps s ! nat (ID v)))"
proof -
  from assms(1) have "version (Steps.steps s ! nat (ID v)) = v"
    by (simp add: check_None_iff)
  then show ?thesis using assms by (simp add: Steps_Down_def Let_def)
qed

lemma oneUp_Inl:
  "Stepper_Up (Migrator.steps m) (cachedVersion m) = Inl err \<Longrightarrow> oneUp m dryRun d = (Some err, m, d)"
  by (simp add: oneUp_def)

lemma oneDown_Inl:
  "Stepper_Down (Migrator.steps m) (cachedVersion m) = Inl err \<Longrightarrow>
   oneDown m dryRun d = (Some err, m, d)"
  by (simp add: oneDown_def)


lemma demo_registry:
  "appends demo_Sum256 demo_calls (NewSteps demo_Sum256 ''test-db'') = Some (Inr demo_Steps)"
  by (simp add: demo_calls_def demo_Steps_def registry_of_def demo_calls_def Steps_Append_def NewSteps_def Let_def)

lemma demo_length: "length (Steps.steps demo_Steps) = 3"
  by (simp add: demo_Steps_def registry_of_def demo_calls_def Steps_Append_def NewSteps_def Let_def)

lemma demo_versions:
  "map version (Steps.steps demo_Steps) =
     [\<lparr>ID = 0, Checksum = demo_Sum256 (bytes ''test-db'')\<rparr>,
      \<lparr>ID = 1, Checksum = demo_Sum256 (demo_Sum256 (bytes ''test-db'') @ AppendUint64 [] 1 @ bytes ''step1'')\<rparr>,
      \<lparr>ID = 2, Checksum = demo_Sum256 (demo_Sum256 (demo_Sum256 (bytes ''test-db'') @ AppendUint64 [] 1 @ bytes ''step1'') @ AppendUint64 [] 2 @ bytes ''step2'')\<rparr>]"
  by (simp add: demo_Steps_def registry_of_def demo_calls_def Steps_Append_def NewSteps_def Let_def AppendUint64_def)


section \<open>The checksum chain\<close>

text \<open>
  Claim C1. In a registry built by \<open>NewSteps root\<close> and a sequence of \<open>Append\<close> calls
  that all succeed, step 0 has the checksum \<open>Sum256 root\<close>; every later step \<open>i\<close> has
  the identifier \<open>i\<close> and the checksum \<open>Sum256\<close> of the checksum of step \<open>i - 1\<close>,
  followed by the eight bytes of \<open>i\<close> (least significant first: byte \<open>k\<close> is
  \<open>i div 256 ^ k mod 256\<close>), followed by the bytes of the name of call \<open>i\<close>. So the
  versions depend on the names alone: a second sequence of calls with the same names gives
  the same versions, whatever its operations.
\<close>

theorem checksum_chain:
  assumes "appends Sum256 calls (NewSteps Sum256 root) = Some (Inr s)"
  shows "length (Steps.steps s) = Suc (length calls) \<and>
         version (Steps.steps s ! 0) = \<lparr>ID = 0, Checksum = Sum256 (bytes root)\<rparr> \<and>
         (\<forall>i. 1 \<le> i \<and> i \<le> length calls \<longrightarrow>
            version (Steps.steps s ! i) =
              \<lparr>ID = int i,
               Checksum = Sum256 (Checksum (version (Steps.steps s ! (i - 1))) @
                                  AppendUint64 [] (word_of_nat i) @
                                  bytes (fst (calls ! (i - 1))))\<rparr> \<and>
            (i < 2 ^ 64 \<longrightarrow>
               map unat (AppendUint64 [] (word_of_nat i)) =
                 map (\<lambda>k. i div 256 ^ k mod 256) [0..<8])) \<and>
         (\<forall>calls' s'. appends Sum256 calls' (NewSteps Sum256 root) = Some (Inr s') \<and>
                      map fst calls' = map fst calls \<longrightarrow>
            map version (Steps.steps s') = map version (Steps.steps s))"
proof -
  let ?v0 = "\<lparr>ID = 0, Checksum = Sum256 (bytes root)\<rparr>"
  let ?ch = "chain Sum256 1 (Sum256 (bytes root)) (map fst calls)"
  have vs: "map version (Steps.steps s) = ?v0 # ?ch"
    by (rule registry_versions[OF assms])
  have len: "length (Steps.steps s) = Suc (length calls)"
    by (rule registry_length[OF assms])
  have nth: "version (Steps.steps s ! i) = (?v0 # ?ch) ! i" if "i \<le> length calls" for i
  proof -
    have "version (Steps.steps s ! i) = map version (Steps.steps s) ! i"
      using that len by simp
    then show ?thesis by (simp only: vs)
  qed
  have zero: "version (Steps.steps s ! 0) = ?v0"
    using nth[of 0] by simp
  have step: "version (Steps.steps s ! i) =
              \<lparr>ID = int i,
               Checksum = Sum256 (Checksum (version (Steps.steps s ! (i - 1))) @
                                  AppendUint64 [] (word_of_nat i) @
                                  bytes (fst (calls ! (i - 1))))\<rparr>"
    if i: "1 \<le> i" "i \<le> length calls" for i
  proof -
    obtain j where j: "i = Suc j" using i(1) by (cases i) simp_all
    have jl: "j < length (map fst calls)" using i(2) j by simp
    have a: "version (Steps.steps s ! i) = ?ch ! j" using nth[OF i(2)] j by simp
    have b: "Checksum (version (Steps.steps s ! (i - 1))) =
             (if j = 0 then Sum256 (bytes root) else Checksum (?ch ! (j - 1)))"
    proof (cases j)
      case 0 then show ?thesis using zero j by simp
    next
      case (Suc k)
      then have "i - 1 \<le> length calls" using i(2) j by simp
      from nth[OF this] show ?thesis using j Suc by simp
    qed
    have c: "ID (?ch ! j) = int i" using chain_ID[OF jl, of Sum256 1] j by simp
    have d: "Checksum (?ch ! j) =
             Sum256 ((if j = 0 then Sum256 (bytes root) else Checksum (?ch ! (j - 1))) @
                     AppendUint64 [] (word_of_nat i) @ bytes (fst (calls ! j)))"
      using chain_Checksum[OF jl, of Sum256 1] jl j by simp
    show ?thesis
      using a b c d j by simp
  qed
  have det: "map version (Steps.steps s') = map version (Steps.steps s)"
    if "appends Sum256 calls' (NewSteps Sum256 root) = Some (Inr s')" "map fst calls' = map fst calls"
    for calls' s'
    using registry_versions[OF that(1)] that(2) vs by simp
  show ?thesis
    using len zero step det le64_bytes by blast
qed

text \<open>The registry of the tests satisfies the hypothesis of C1, and its chain at step 2.\<close>

theorem checksum_chain_witness:
  "appends demo_Sum256 demo_calls (NewSteps demo_Sum256 ''test-db'') = Some (Inr demo_Steps) \<and>
   length (Steps.steps demo_Steps) = 3 \<and>
   Checksum (version (Steps.steps demo_Steps ! 0)) = demo_Sum256 (bytes ''test-db'') \<and>
   Checksum (version (Steps.steps demo_Steps ! 2)) =
     demo_Sum256 (Checksum (version (Steps.steps demo_Steps ! 1)) @
                  AppendUint64 [] 2 @ bytes ''step2'')"
proof -
  have h: "appends demo_Sum256 demo_calls (NewSteps demo_Sum256 ''test-db'') = Some (Inr demo_Steps)"
    by (simp add: demo_calls_def demo_Steps_def registry_of_def demo_calls_def Steps_Append_def NewSteps_def Let_def)
  note t = checksum_chain[OF h]
  have l: "length (Steps.steps demo_Steps) = 3"
    using t[THEN conjunct1] by (simp add: demo_calls_def)
  have z: "Checksum (version (Steps.steps demo_Steps ! 0)) = demo_Sum256 (bytes ''test-db'')"
    using t[THEN conjunct2, THEN conjunct1] by simp
  have c: "Checksum (version (Steps.steps demo_Steps ! 2)) =
     demo_Sum256 (Checksum (version (Steps.steps demo_Steps ! 1)) @
                  AppendUint64 [] 2 @ bytes ''step2'')"
    using t[THEN conjunct2, THEN conjunct2, THEN conjunct1, rule_format, of 2]
    by (simp add: demo_calls_def)
  show ?thesis using h l z c by simp
qed

section \<open>Errors of the registry\<close>

text \<open>
  Claim C9. \<open>Append\<close> with an empty name returns an error and leaves the registry as it
  was; the error is a plain \<open>fmt.Errorf("append step: name is empty")\<close>, which does not
  wrap \<open>ErrBadParameters\<close>.
\<close>

theorem Append_empty_name:
  "Steps_Append Sum256 [] upf downf s =
     Some (Some (Errorf ''append step: name is empty'' []), s) \<and>
   \<not> fails_with (Some (Errorf ''append step: name is empty'' [])) ErrBadParameters"
  by (simp add: Steps_Append_def fails_with_def ErrBadParameters_def)


text \<open>
  Claim C2. In a registry of \<open>N\<close> steps, \<open>Version\<close>, \<open>Name\<close> and \<open>Check\<close> fail with an
  error wrapping \<open>ErrBadVersionID\<close> for every identifier outside \<open>[0, N)\<close>; \<open>Check\<close> fails
  with an error wrapping \<open>ErrBadVersionChecksum\<close> for a version whose identifier is in range
  and whose checksum differs from the step's; \<open>Down\<close> at version 0 and \<open>Up\<close> at the last
  version fail with an error wrapping \<open>ErrEndOfSteps\<close>, and so do \<open>OneDown\<close> and \<open>OneUp\<close>
  of a migrator on this registry whose cached version is that one.
\<close>

theorem registry_errors:
  assumes "appends Sum256 calls (NewSteps Sum256 root) = Some (Inr s)"
  shows "(\<forall>i. i < 0 \<or> i \<ge> int (length (Steps.steps s)) \<longrightarrow>
            fails_with (snd (Steps_Version s i)) ErrBadVersionID \<and>
            fails_with (snd (Steps_Name s i)) ErrBadVersionID) \<and>
         (\<forall>v. ID v < 0 \<or> ID v \<ge> int (length (Steps.steps s)) \<longrightarrow>
            fails_with (Steps_Check s v) ErrBadVersionID) \<and>
         (\<forall>v. 0 \<le> ID v \<and> ID v < int (length (Steps.steps s)) \<and>
              Checksum v \<noteq> Checksum (version (Steps.steps s ! nat (ID v))) \<longrightarrow>
            fails_with (Steps_Check s v) ErrBadVersionChecksum) \<and>
         fails_with (err_of (Steps_Down s (version (Steps.steps s ! 0)))) ErrEndOfSteps \<and>
         fails_with (err_of (Steps_Up s (version (last (Steps.steps s))))) ErrEndOfSteps \<and>
         (\<forall>m d. Migrator.steps m = Steps_Stepper s \<and>
                cachedVersion m = version (Steps.steps s ! 0) \<longrightarrow>
            fails_with (fst (OneDown m d)) ErrEndOfSteps) \<and>
         (\<forall>m d. Migrator.steps m = Steps_Stepper s \<and>
                cachedVersion m = version (last (Steps.steps s)) \<longrightarrow>
            fails_with (fst (OneUp m d)) ErrEndOfSteps)"
proof -
  have len: "length (Steps.steps s) = Suc (length calls)" by (rule registry_length[OF assms])
  then have ne: "Steps.steps s \<noteq> []" by auto
  have a: "fails_with (snd (Steps_Version s i)) ErrBadVersionID \<and>
           fails_with (snd (Steps_Name s i)) ErrBadVersionID"
    if "i < 0 \<or> i \<ge> int (length (Steps.steps s))" for i
    using that by (simp add: Steps_Version_def Steps_Name_def checkID_out fails_with_def)
  have b: "fails_with (Steps_Check s v) ErrBadVersionID"
    if "ID v < 0 \<or> ID v \<ge> int (length (Steps.steps s))" for v
    using that by (simp add: Steps_Check_def check_def checkID_out fails_with_def)
  have c: "fails_with (Steps_Check s v) ErrBadVersionChecksum"
    if "0 \<le> ID v \<and> ID v < int (length (Steps.steps s)) \<and>
        Checksum v \<noteq> Checksum (version (Steps.steps s ! nat (ID v)))" for v
  proof -
    from that have "version (Steps.steps s ! nat (ID v)) \<noteq> v" by auto
    with that show ?thesis
      by (simp add: Steps_Check_def check_def checkID_in fails_with_def Let_def)
  qed
  have c0: "check s (version (Steps.steps s ! 0)) = None"
    using registry_check[OF assms, of 0] len by simp
  have i0: "ID (version (Steps.steps s ! 0)) = 0"
    using registry_ID[OF assms, of 0] len by simp
  have lst: "last (Steps.steps s) = Steps.steps s ! length calls"
    using len ne by (simp add: last_conv_nth)
  have cl: "check s (version (last (Steps.steps s))) = None"
    using registry_check[OF assms, of "length calls"] len lst by simp
  have il: "ID (version (last (Steps.steps s))) = int (length (Steps.steps s)) - 1"
    using registry_ID[OF assms, of "length calls"] len lst by simp
  have dn: "Steps_Down s (version (Steps.steps s ! 0)) = Inl (Errorf ''%w: %v'' [ErrEndOfSteps])"
    by (rule Steps_Down_first[OF c0 i0])
  have upl: "Steps_Up s (version (last (Steps.steps s))) = Inl (Errorf ''%w: %v'' [ErrEndOfSteps])"
    by (rule Steps_Up_last[OF cl il])
  have d: "fails_with (err_of (Steps_Down s (version (Steps.steps s ! 0)))) ErrEndOfSteps"
    by (simp add: dn err_of_def fails_with_def)
  have e: "fails_with (err_of (Steps_Up s (version (last (Steps.steps s))))) ErrEndOfSteps"
    by (simp add: upl err_of_def fails_with_def)
  have f: "fails_with (fst (OneDown m d)) ErrEndOfSteps"
    if "Migrator.steps m = Steps_Stepper s \<and> cachedVersion m = version (Steps.steps s ! 0)"
    for m :: "'a Migrator" and d
  proof -
    from that dn have "Stepper_Down (Migrator.steps m) (cachedVersion m) =
        Inl (Errorf ''%w: %v'' [ErrEndOfSteps])"
      by (simp add: Steps_Stepper_def)
    from oneDown_Inl[OF this] show ?thesis
      by (simp add: OneDownCtx_def fails_with_def)
  qed
  have g: "fails_with (fst (OneUp m d)) ErrEndOfSteps"
    if "Migrator.steps m = Steps_Stepper s \<and> cachedVersion m = version (last (Steps.steps s))"
    for m :: "'a Migrator" and d
  proof -
    from that upl have "Stepper_Up (Migrator.steps m) (cachedVersion m) =
        Inl (Errorf ''%w: %v'' [ErrEndOfSteps])"
      by (simp add: Steps_Stepper_def)
    from oneUp_Inl[OF this] show ?thesis
      by (simp add: OneUpCtx_def fails_with_def)
  qed
  show ?thesis using a b c d e f g by blast
qed


text \<open>The registry of the tests, with identifiers and a checksum it rejects.\<close>

theorem registry_errors_witness:
  "appends demo_Sum256 demo_calls (NewSteps demo_Sum256 ''test-db'') =
     Some (Inr demo_Steps) \<and>
   fails_with (snd (Steps_Version demo_Steps (- 1))) ErrBadVersionID \<and>
   fails_with (snd (Steps_Name demo_Steps 100)) ErrBadVersionID \<and>
   fails_with (Steps_Check demo_Steps \<lparr>ID = 100, Checksum = replicate 32 0\<rparr>)
     ErrBadVersionID \<and>
   fails_with (Steps_Check demo_Steps \<lparr>ID = 1, Checksum = replicate 32 0\<rparr>)
     ErrBadVersionChecksum \<and>
   fails_with (fst (OneDown (demo_Migrator demo_v0) (demo_db demo_v0))) ErrEndOfSteps \<and>
   fails_with (fst (OneUp (demo_Migrator demo_v2) (demo_db demo_v2))) ErrEndOfSteps"
proof -
  have h: "appends demo_Sum256 demo_calls (NewSteps demo_Sum256 ''test-db'') =
     Some (Inr demo_Steps)" by (rule demo_registry)
  note t = registry_errors[OF h]
  have a: "fails_with (snd (Steps_Version demo_Steps (- 1))) ErrBadVersionID"
    using t[THEN conjunct1, rule_format, of "- 1"] by simp
  have b: "fails_with (snd (Steps_Name demo_Steps 100)) ErrBadVersionID"
    using t[THEN conjunct1, rule_format, of 100] by (simp add: demo_length)
  have c: "fails_with (Steps_Check demo_Steps
             \<lparr>ID = 100, Checksum = replicate 32 0\<rparr>) ErrBadVersionID"
    using t[THEN conjunct2, THEN conjunct1, rule_format, of "\<lparr>ID = 100, Checksum = replicate 32 0\<rparr>"]
    by (simp add: demo_length)
  have ck1: "Checksum (version (Steps.steps demo_Steps ! 1)) \<noteq> replicate 32 0"
    by code_simp
  have d: "fails_with (Steps_Check demo_Steps
             \<lparr>ID = 1, Checksum = replicate 32 0\<rparr>) ErrBadVersionChecksum"
    using t[THEN conjunct2, THEN conjunct2, THEN conjunct1, rule_format,
            of "\<lparr>ID = 1, Checksum = replicate 32 0\<rparr>"] ck1
    by (simp add: demo_length)
  have e: "fails_with (fst (OneDown (demo_Migrator demo_v0) (demo_db demo_v0))) ErrEndOfSteps"
    using t[THEN conjunct2, THEN conjunct2, THEN conjunct2, THEN conjunct2, THEN conjunct2,
            THEN conjunct1, rule_format, of "demo_Migrator demo_v0" "demo_db demo_v0"]
    by (simp add: demo_Migrator_def demo_v0_def demo_v1_def demo_v2_def)
  have lst: "version (last (Steps.steps demo_Steps)) = demo_v2"
    by (simp add: demo_v0_def demo_v1_def demo_v2_def last_conv_nth demo_length)
      (simp add: demo_Steps_def registry_of_def demo_calls_def Steps_Append_def NewSteps_def Let_def)
  have f: "fails_with (fst (OneUp (demo_Migrator demo_v2) (demo_db demo_v2))) ErrEndOfSteps"
    using t[THEN conjunct2, THEN conjunct2, THEN conjunct2, THEN conjunct2, THEN conjunct2,
            THEN conjunct2, rule_format, of "demo_Migrator demo_v2" "demo_db demo_v2"] lst
    by (simp add: demo_Migrator_def)
  show ?thesis using h a b c d e f by simp
qed


section \<open>Up and down\<close>

text \<open>
  Claim C7. For a version \<open>v\<close> that the registry accepts and that is not the last one,
  \<open>Up v\<close> succeeds with a step from \<open>v\<close> to the version of step \<open>ID v + 1\<close>, and \<open>Down\<close>
  of that version succeeds with a step that leads back to \<open>v\<close>.
\<close>

theorem up_down_round_trip:
  assumes "appends Sum256 calls (NewSteps Sum256 root) = Some (Inr s)"
    and "Steps_Check s v = None"
    and "ID v < int (length (Steps.steps s)) - 1"
  shows "Steps_Up s v =
           Inr (\<lparr>Name = name (Steps.steps s ! nat (ID v + 1)), From = v,
                 To = version (Steps.steps s ! nat (ID v + 1))\<rparr>,
                up (Steps.steps s ! nat (ID v + 1))) \<and>
         Steps_Down s (version (Steps.steps s ! nat (ID v + 1))) =
           Inr (\<lparr>Name = name (Steps.steps s ! nat (ID v + 1)),
                 From = version (Steps.steps s ! nat (ID v + 1)), To = v\<rparr>,
                down (Steps.steps s ! nat (ID v + 1)))"
proof -
  have ck: "check s v = None" using assms(2) by (simp add: Steps_Check_def)
  then have v: "0 \<le> ID v" "version (Steps.steps s ! nat (ID v)) = v"
    by (simp_all add: check_None_iff)
  let ?j = "nat (ID v + 1)"
  have j: "?j < length (Steps.steps s)" using assms(3) v(1) by simp
  have idj: "ID (version (Steps.steps s ! ?j)) = ID v + 1"
    using registry_ID[OF assms(1) j] v(1) by simp
  have ckj: "check s (version (Steps.steps s ! ?j)) = None"
    by (rule registry_check[OF assms(1) j])
  have u: "Steps_Up s v =
           Inr (\<lparr>Name = name (Steps.steps s ! ?j), From = v,
                 To = version (Steps.steps s ! ?j)\<rparr>, up (Steps.steps s ! ?j))"
    using Steps_Up_ok[OF ck] assms(3) by simp
  have dn: "Steps_Down s (version (Steps.steps s ! ?j)) =
           Inr (\<lparr>Name = name (Steps.steps s ! ?j),
                 From = version (Steps.steps s ! ?j), To = v\<rparr>, down (Steps.steps s ! ?j))"
    using Steps_Down_ok[OF ckj] idj v by simp
  show ?thesis using u dn by simp
qed

text \<open>Version 1 of the registry of the tests: up to version 2 and back.\<close>

theorem up_down_round_trip_witness:
  "appends demo_Sum256 demo_calls (NewSteps demo_Sum256 ''test-db'') =
     Some (Inr demo_Steps) \<and>
   Steps_Check demo_Steps demo_v1 = None \<and>
   ID demo_v1 < int (length (Steps.steps demo_Steps)) - 1 \<and>
   Steps_Up demo_Steps demo_v1 =
     Inr (\<lparr>Name = ''step2'', From = demo_v1, To = demo_v2\<rparr>, None) \<and>
   Steps_Down demo_Steps demo_v2 =
     Inr (\<lparr>Name = ''step2'', From = demo_v2, To = demo_v1\<rparr>, None)"
proof -
  have h: "appends demo_Sum256 demo_calls (NewSteps demo_Sum256 ''test-db'') =
     Some (Inr demo_Steps)" by (rule demo_registry)
  have i1: "ID demo_v1 = 1"
    by code_simp
  have c: "Steps_Check demo_Steps demo_v1 = None"
    using i1 by (simp add: Steps_Check_def check_None_iff demo_length) (simp add: demo_v0_def demo_v1_def demo_v2_def)
  have l: "ID demo_v1 < int (length (Steps.steps demo_Steps)) - 1"
    using i1 demo_length by simp
  have n: "name (Steps.steps demo_Steps ! 2) = ''step2''"
      "up (Steps.steps demo_Steps ! 2) = None"
      "down (Steps.steps demo_Steps ! 2) = None"
    by (simp_all add: demo_Steps_def registry_of_def demo_calls_def Steps_Append_def NewSteps_def Let_def)
  show ?thesis
    using h c l up_down_round_trip[OF h c l] i1 n by (simp add: demo_v0_def demo_v1_def demo_v2_def)
qed

section \<open>Lemmas on the migrator\<close>

lemma oneUp_fail_same: "oneUp m dryRun d = (Some err, m', d') \<Longrightarrow> m' = m"
  by (auto simp: oneUp_def Let_def split: sum.splits prod.splits option.splits if_splits)

lemma oneDown_fail_same: "oneDown m dryRun d = (Some err, m', d') \<Longrightarrow> m' = m"
  by (auto simp: oneDown_def Let_def split: sum.splits prod.splits option.splits if_splits)





lemma demo_steps:
  "Steps.steps demo_Steps =
     [\<lparr>name = ''test-db'', up = None, down = None, version = demo_v0\<rparr>,
      \<lparr>name = ''step1'', up = None, down = None, version = demo_v1\<rparr>,
      \<lparr>name = ''step2'', up = None, down = None, version = demo_v2\<rparr>]"
  by (simp add: demo_v0_def demo_v1_def demo_v2_def demo_Steps_def registry_of_def demo_calls_def Steps_Append_def
      NewSteps_def Let_def)

lemma demo_ID: "ID demo_v0 = 0" "ID demo_v1 = 1" "ID demo_v2 = 2"
  by code_simp+

lemma demo_check: "check demo_Steps demo_v0 = None" "check demo_Steps demo_v1 = None"
  "check demo_Steps demo_v2 = None"
  by (simp_all add: check_None_iff demo_ID demo_steps)

lemma demo_Up:
  "Steps_Up demo_Steps demo_v0 =
     Inr (\<lparr>Name = ''step1'', From = demo_v0, To = demo_v1\<rparr>, None)"
  "Steps_Up demo_Steps demo_v1 =
     Inr (\<lparr>Name = ''step2'', From = demo_v1, To = demo_v2\<rparr>, None)"
  "Steps_Up demo_Steps demo_v2 = Inl (Errorf ''%w: %v'' [ErrEndOfSteps])"
  by (simp_all add: Steps_Up_def demo_check demo_ID demo_steps)

lemma demo_Down:
  "Steps_Down demo_Steps demo_v0 = Inl (Errorf ''%w: %v'' [ErrEndOfSteps])"
  "Steps_Down demo_Steps demo_v1 =
     Inr (\<lparr>Name = ''step1'', From = demo_v1, To = demo_v0\<rparr>, None)"
  "Steps_Down demo_Steps demo_v2 =
     Inr (\<lparr>Name = ''step2'', From = demo_v2, To = demo_v1\<rparr>, None)"
  by (simp_all add: Steps_Down_def demo_check demo_ID demo_steps)

lemma demo_Stepper [simp]:
  "Stepper_Up (Migrator.steps (demo_Migrator v)) = Steps_Up demo_Steps"
  "Stepper_Down (Migrator.steps (demo_Migrator v)) = Steps_Down demo_Steps"
  "Stepper_Check (Migrator.steps (demo_Migrator v)) = Steps_Check demo_Steps"
  "Stepper_Version (Migrator.steps (demo_Migrator v)) = Steps_Version demo_Steps"
  "cachedVersion (demo_Migrator v) = v"
  "db (demo_Migrator v) = mockDatabase_Database"
  by (simp_all add: demo_Migrator_def Steps_Stepper_def)

lemma mock_db [simp]:
  "Database_DefaultStepFunc mockDatabase_Database = mock_DefaultStepFunc"
  "Database_Version mockDatabase_Database = mock_Version"
  "Database_InitVersion mockDatabase_Database = mock_InitVersion"
  by (simp_all add: mockDatabase_Database_def)

section \<open>A failing step\<close>




lemma Steps_Stepper_sel [simp]:
  "Stepper_Up (Steps_Stepper s) = Steps_Up s"
  "Stepper_Down (Steps_Stepper s) = Steps_Down s"
  "Stepper_Check (Steps_Stepper s) = Steps_Check s"
  "Stepper_Version (Steps_Stepper s) = Steps_Version s"
  by (simp_all add: Steps_Stepper_def)

lemma not_Is_sentinels [simp]:
  "\<not> Is (Errorf ''%w: %v'' [ErrBadVersion]) ErrBadVersionID"
  "\<not> Is (Errorf ''%w: %v'' [ErrEndOfSteps]) ErrBadVersion"
  "Is (Errorf ''%w: %v'' [ErrBadVersion]) ErrBadVersion"
  "Is (Errorf ''%w: %v'' [ErrEndOfSteps]) ErrEndOfSteps"
  by (simp_all add: sentinel_defs)







lemma demo_steps_abort:
  "Steps.steps demo_Steps_abort =
     [\<lparr>name = ''test-db'', up = None, down = None, version = demo_v0\<rparr>,
      \<lparr>name = ''step1'', up = None, down = None, version = demo_v1\<rparr>,
      \<lparr>name = ''step2'', up = Some abortFunc, down = None, version = demo_v2\<rparr>]"
  by (simp add: demo_v0_def demo_v1_def demo_v2_def demo_Steps_def registry_of_def demo_calls_def demo_Steps_abort_def registry_of_def
      Steps_Append_def NewSteps_def Let_def)

lemma demo_check_abort: "check demo_Steps_abort demo_v0 = None"
  "check demo_Steps_abort demo_v1 = None"
  by (simp_all add: check_None_iff demo_ID demo_steps_abort)

lemma demo_Up_abort:
  "Steps_Up demo_Steps_abort demo_v0 =
     Inr (\<lparr>Name = ''step1'', From = demo_v0, To = demo_v1\<rparr>, None)"
  "Steps_Up demo_Steps_abort demo_v1 =
     Inr (\<lparr>Name = ''step2'', From = demo_v1, To = demo_v2\<rparr>, Some abortFunc)"
  by (simp_all add: Steps_Up_def demo_check_abort demo_ID demo_steps_abort)

lemma demo_oneUp:
  "oneUp (demo_Migrator demo_v0) False (demo_db demo_v0) =
     (None, demo_Migrator demo_v1, demo_db demo_v1)"
  "oneUp (demo_Migrator demo_v1) False (demo_db demo_v1) =
     (None, demo_Migrator demo_v2, demo_db demo_v2)"
  "oneUp (demo_Migrator demo_v2) False (demo_db demo_v2) =
     (Some (Errorf ''%w: %v'' [ErrEndOfSteps]), demo_Migrator demo_v2, demo_db demo_v2)"
  by (simp_all add: oneUp_def demo_Up mock_DefaultStepFunc_def demo_db_def)
     (simp_all add: demo_Migrator_def)

lemma demo_oneDown:
  "oneDown (demo_Migrator demo_v2) False (demo_db demo_v2) =
     (None, demo_Migrator demo_v1, demo_db demo_v1)"
  "oneDown (demo_Migrator demo_v1) False (demo_db demo_v1) =
     (None, demo_Migrator demo_v0, demo_db demo_v0)"
  "oneDown (demo_Migrator demo_v0) False (demo_db demo_v0) =
     (Some (Errorf ''%w: %v'' [ErrEndOfSteps]), demo_Migrator demo_v0, demo_db demo_v0)"
  by (simp_all add: oneDown_def demo_Down mock_DefaultStepFunc_def demo_db_def)
     (simp_all add: demo_Migrator_def)

lemma demo_oneUp_abort:
  "oneUp (demo_Migrator_abort demo_v0) False (demo_db demo_v0) =
     (None, demo_Migrator_abort demo_v1, demo_db demo_v1)"
  "oneUp (demo_Migrator_abort demo_v1) False (demo_db demo_v1) =
     (Some ErrAbort, demo_Migrator_abort demo_v1, demo_db demo_v1)"
  by (simp_all add: oneUp_def demo_Up_abort mock_DefaultStepFunc_def demo_db_def
      demo_Migrator_abort_def Steps_Stepper_def mockDatabase_Database_def abortFunc_def)

section \<open>The fresh migrator\<close>




section \<open>Dry runs\<close>


lemma versionCtx_cache_irrelevant:
  "versionCtx (m\<lparr>cachedVersion := v\<rparr>) d = versionCtx m d"
  by (simp add: versionCtx_def)




section \<open>The names of the operations\<close>

lemma AllUp_error_wrapped:
  assumes "AllUp m d = Some r"
  shows "fst r = None \<or> (\<exists>e. fst r = Some (Errorf ''all up: %w'' [e]))"
  by (rule AllUpCtx.raw_induct
      [where P = "\<lambda>m d r. fst r = None \<or> (\<exists>e. fst r = Some (Errorf ''all up: %w'' [e]))",
       OF _ assms])
     (auto split: prod.splits option.splits if_splits)

lemma AllDown_error_wrapped:
  assumes "AllDown m d = Some r"
  shows "fst r = None \<or> (\<exists>e. fst r = Some (Errorf ''all down: %w'' [e]))"
  by (rule AllDownCtx.raw_induct
      [where P = "\<lambda>m d r. fst r = None \<or> (\<exists>e. fst r = Some (Errorf ''all down: %w'' [e]))",
       OF _ assms])
     (auto split: prod.splits option.splits if_splits)

lemma initCtx_errors:
  "fst (initCtx m dryRun d) = Some e \<Longrightarrow>
   e = Errorf ''%w as %v'' [ErrAlreadyInitialized] \<or>
   (\<exists>e'. e = Errorf ''%w: %w'' [ErrNotInitialized, e'])"
  by (auto simp: initCtx_def split: prod.splits option.splits if_splits)

text \<open>
  Claim C8, as the code has it. Every error of \<open>OneUp\<close>, \<open>OneDown\<close>, \<open>OneUpDryRun\<close>,
  \<open>OneDownDryRun\<close>, \<open>AllUp\<close> and \<open>AllDown\<close> is wrapped with the name of the operation.
  \<open>Version\<close> returns the error of the database, or of the check, as it is; \<open>Init\<close> and
  \<open>InitDryRun\<close> return \<open>ErrAlreadyInitialized\<close> or \<open>ErrNotInitialized\<close> with their
  cause, without the name of the operation.
\<close>

theorem operation_name_wrapping:
  "(\<forall>e. fst (OneUp m d) = Some e \<longrightarrow> wrapped_by ''one up'' e) \<and>
   (\<forall>e. fst (OneDown m d) = Some e \<longrightarrow> wrapped_by ''one down'' e) \<and>
   (\<forall>e. fst (OneUpDryRun m d) = Some e \<longrightarrow> wrapped_by ''one up dry run'' e) \<and>
   (\<forall>e. fst (OneDownDryRun m d) = Some e \<longrightarrow> wrapped_by ''one down dry run'' e) \<and>
   (\<forall>e m' d'. AllUp m d = Some (Some e, m', d') \<longrightarrow> wrapped_by ''all up'' e) \<and>
   (\<forall>e m' d'. AllDown m d = Some (Some e, m', d') \<longrightarrow> wrapped_by ''all down'' e) \<and>
   (\<forall>v e d'. Database_Version (db m) d = ((v, Some e), d') \<longrightarrow>
      snd (fst (Migrator_Version m d)) = Some e) \<and>
   (\<forall>v e d'. Database_Version (db m) d = ((v, None), d') \<and>
        Stepper_Check (Migrator.steps m) v = Some e \<longrightarrow>
      snd (fst (Migrator_Version m d)) = Some e) \<and>
   (\<forall>e. fst (Init m d) = Some e \<or> fst (InitDryRun m d) = Some e \<longrightarrow>
      e = Errorf ''%w as %v'' [ErrAlreadyInitialized] \<or>
      (\<exists>e'. e = Errorf ''%w: %w'' [ErrNotInitialized, e']))"
proof -
  have a: "wrapped_by ''one up'' e" if "fst (OneUp m d) = Some e" for e
    using that by (auto simp: OneUpCtx_def wrapped_by_def split: prod.splits option.splits)
  have b: "wrapped_by ''one down'' e" if "fst (OneDown m d) = Some e" for e
    using that by (auto simp: OneDownCtx_def wrapped_by_def split: prod.splits option.splits)
  have c: "wrapped_by ''one up dry run'' e" if "fst (OneUpDryRun m d) = Some e" for e
    using that by (auto simp: OneUpDryRunCtx_def wrapped_by_def split: prod.splits option.splits)
  have e: "wrapped_by ''one down dry run'' e" if "fst (OneDownDryRun m d) = Some e" for e
    using that by (auto simp: OneDownDryRunCtx_def wrapped_by_def split: prod.splits option.splits)
  have f: "wrapped_by ''all up'' e" if "AllUp m d = Some (Some e, m', d')" for e m' d'
    using AllUp_error_wrapped[OF that] by (auto simp: wrapped_by_def)
  have g: "wrapped_by ''all down'' e" if "AllDown m d = Some (Some e, m', d')" for e m' d'
    using AllDown_error_wrapped[OF that] by (auto simp: wrapped_by_def)
  have h: "snd (fst (Migrator_Version m d)) = Some e"
    if "Database_Version (db m) d = ((v, Some e), d')" for v e d'
    using that by (simp add: VersionCtx_def versionCtx_def)
  have i: "snd (fst (Migrator_Version m d)) = Some e"
    if "Database_Version (db m) d = ((v, None), d') \<and> Stepper_Check (Migrator.steps m) v = Some e"
    for v e d'
    using that by (simp add: VersionCtx_def versionCtx_def)
  have j: "e = Errorf ''%w as %v'' [ErrAlreadyInitialized] \<or>
      (\<exists>e'. e = Errorf ''%w: %w'' [ErrNotInitialized, e'])"
    if "fst (Init m d) = Some e \<or> fst (InitDryRun m d) = Some e" for e
    using that initCtx_errors[of m False d e] initCtx_errors[of m True d e]
    by (auto simp: InitCtx_def InitDryRunCtx_def)
  show ?thesis using a b c e f g h i j by blast
qed

text \<open>
  The claim as stated fails: \<open>Version\<close> returns the error of the mock database itself,
  and \<open>Init\<close> on an initialized database returns \<open>ErrAlreadyInitialized\<close> in a message
  that names no operation.
\<close>

theorem operation_name_counterexample:
  "snd (fst (Migrator_Version (demo_Migrator badVersion) demo_db_uninit)) = Some errMock \<and>
   \<not> wrapped_by ''version'' errMock \<and>
   fst (Init (demo_Migrator badVersion) (demo_db demo_v0)) =
     Some (Errorf ''%w as %v'' [ErrAlreadyInitialized]) \<and>
   \<not> wrapped_by ''init'' (Errorf ''%w as %v'' [ErrAlreadyInitialized])"
  by (simp add: VersionCtx_def versionCtx_def mock_Version_def demo_db_uninit_def
      InitCtx_def initCtx_def demo_db_def Steps_Check_def demo_check wrapped_by_def errMock_def)

text \<open>Errors of the migrators of the tests.\<close>

theorem operation_name_wrapping_witness:
  "fst (OneUp (demo_Migrator demo_v2) (demo_db demo_v2)) =
     Some (Errorf ''one up: %w'' [Errorf ''%w: %v'' [ErrEndOfSteps]]) \<and>
   wrapped_by ''one up'' (Errorf ''one up: %w'' [Errorf ''%w: %v'' [ErrEndOfSteps]]) \<and>
   fst (OneDownDryRun (demo_Migrator demo_v0) (demo_db demo_v0)) =
     Some (Errorf ''one down dry run: %w'' [Errorf ''%w: %v'' [ErrEndOfSteps]]) \<and>
   wrapped_by ''one down dry run''
     (Errorf ''one down dry run: %w'' [Errorf ''%w: %v'' [ErrEndOfSteps]]) \<and>
   AllUp (demo_Migrator_abort demo_v1) (demo_db demo_v1) =
     Some (Some (Errorf ''all up: %w'' [ErrAbort]), demo_Migrator_abort demo_v1, demo_db demo_v1) \<and>
   wrapped_by ''all up'' (Errorf ''all up: %w'' [ErrAbort]) \<and>
   Database_Version (db (demo_Migrator badVersion)) demo_db_uninit =
     ((badVersion, Some errMock), demo_db_uninit) \<and>
   snd (fst (Migrator_Version (demo_Migrator badVersion) demo_db_uninit)) = Some errMock"
proof -
  note t2 = operation_name_wrapping[of "demo_Migrator demo_v2" "demo_db demo_v2"]
  note t0 = operation_name_wrapping[of "demo_Migrator demo_v0" "demo_db demo_v0"]
  note ta = operation_name_wrapping[of "demo_Migrator_abort demo_v1" "demo_db demo_v1"]
  note tb = operation_name_wrapping[of "demo_Migrator badVersion" demo_db_uninit]
  have a: "fst (OneUp (demo_Migrator demo_v2) (demo_db demo_v2)) =
     Some (Errorf ''one up: %w'' [Errorf ''%w: %v'' [ErrEndOfSteps]])"
    by (simp add: OneUpCtx_def demo_oneUp)
  have a': "wrapped_by ''one up'' (Errorf ''one up: %w'' [Errorf ''%w: %v'' [ErrEndOfSteps]])"
    using t2[THEN conjunct1, rule_format, OF a] .
  have "oneDown (demo_Migrator demo_v0) True (demo_db demo_v0) =
     (Some (Errorf ''%w: %v'' [ErrEndOfSteps]), demo_Migrator demo_v0, demo_db demo_v0)"
    by (simp add: oneDown_def demo_Down)
  then have b: "fst (OneDownDryRun (demo_Migrator demo_v0) (demo_db demo_v0)) =
     Some (Errorf ''one down dry run: %w'' [Errorf ''%w: %v'' [ErrEndOfSteps]])"
    by (simp add: OneDownDryRunCtx_def)
  have b': "wrapped_by ''one down dry run''
     (Errorf ''one down dry run: %w'' [Errorf ''%w: %v'' [ErrEndOfSteps]])"
    using t0[THEN conjunct2, THEN conjunct2, THEN conjunct2, THEN conjunct1, rule_format, OF b] .
  have c: "AllUp (demo_Migrator_abort demo_v1) (demo_db demo_v1) =
     Some (Some (Errorf ''all up: %w'' [ErrAbort]), demo_Migrator_abort demo_v1, demo_db demo_v1)"
    by (subst AllUpCtx.simps) (simp add: demo_oneUp_abort sentinel_defs)
  have c': "wrapped_by ''all up'' (Errorf ''all up: %w'' [ErrAbort])"
    using ta[THEN conjunct2, THEN conjunct2, THEN conjunct2, THEN conjunct2, THEN conjunct1,
             rule_format, OF c] .
  have e: "Database_Version (db (demo_Migrator badVersion)) demo_db_uninit =
     ((badVersion, Some errMock), demo_db_uninit)"
    by (simp add: mock_Version_def demo_db_uninit_def)
  have e': "snd (fst (Migrator_Version (demo_Migrator badVersion) demo_db_uninit)) = Some errMock"
    using tb[THEN conjunct2, THEN conjunct2, THEN conjunct2, THEN conjunct2, THEN conjunct2,
             THEN conjunct2, THEN conjunct1, rule_format, OF e] .
  show ?thesis using a a' b b' c c' e e' by simp
qed

section \<open>AllUp and AllDown\<close>

lemma AllUp_after_ups:
  assumes "oneUps n m d = Some (m1, d1)" and "oneUp m1 False d1 = (Some err, m2, d2)"
  shows "AllUp m d =
           Some (if Is err ErrEndOfSteps then None else Some (Errorf ''all up: %w'' [err]), m1, d2)"
  using assms
proof (induction n arbitrary: m d)
  case 0
  then have "m1 = m" "d1 = d" by simp_all
  moreover from 0 have "m2 = m1" by (auto dest: oneUp_fail_same)
  ultimately show ?case using 0 by (subst AllUpCtx.simps) simp
next
  case (Suc n)
  then obtain m' d' where s: "oneUp m False d = (None, m', d')" "oneUps n m' d' = Some (m1, d1)"
    by (auto split: prod.splits option.splits)
  from Suc.IH[OF s(2) Suc.prems(2)] s(1) show ?case
    by (subst AllUpCtx.simps) simp
qed

lemma AllDown_after_downs:
  assumes "oneDowns n m d = Some (m1, d1)" and "oneDown m1 False d1 = (Some err, m2, d2)"
  shows "AllDown m d =
           Some (if Is err ErrEndOfSteps then None else Some (Errorf ''all down: %w'' [err]), m1, d2)"
  using assms
proof (induction n arbitrary: m d)
  case 0
  then have "m1 = m" "d1 = d" by simp_all
  moreover from 0 have "m2 = m1" by (auto dest: oneDown_fail_same)
  ultimately show ?case using 0 by (subst AllDownCtx.simps) simp
next
  case (Suc n)
  then obtain m' d' where s: "oneDown m False d = (None, m', d')" "oneDowns n m' d' = Some (m1, d1)"
    by (auto split: prod.splits option.splits)
  from Suc.IH[OF s(2) Suc.prems(2)] s(1) show ?case
    by (subst AllDownCtx.simps) simp
qed

text \<open>On a registry a successful step up moves the cached version to the next identifier.\<close>

lemma oneUp_registry_cases:
  assumes reg: "appends Sum256 calls (NewSteps Sum256 root) = Some (Inr s)"
    and st: "Migrator.steps m = Steps_Stepper s"
    and r: "oneUp m False d = (None, m', d')"
  shows "Migrator.steps m' = Steps_Stepper s \<and> check s (cachedVersion m) = None \<and>
         ID (cachedVersion m) < int (length (Steps.steps s)) - 1 \<and>
         ID (cachedVersion m') = ID (cachedVersion m) + 1"
proof -
  let ?v = "cachedVersion m"
  have ck: "check s ?v = None"
  proof (rule ccontr)
    assume "check s ?v \<noteq> None"
    from Steps_Up_bad[OF this] st have "Stepper_Up (Migrator.steps m) ?v = Inl (Errorf ''%w: %v'' [ErrBadVersion])"
      by simp
    from oneUp_Inl[OF this] r show False by simp
  qed
  have nl: "ID ?v \<noteq> int (length (Steps.steps s)) - 1"
  proof
    assume "ID ?v = int (length (Steps.steps s)) - 1"
    from Steps_Up_last[OF ck this] st have "Stepper_Up (Migrator.steps m) ?v = Inl (Errorf ''%w: %v'' [ErrEndOfSteps])"
      by simp
    from oneUp_Inl[OF this] r show False by simp
  qed
  from ck have rng: "0 \<le> ID ?v" "ID ?v < int (length (Steps.steps s))"
    by (simp_all add: check_None_iff)
  let ?j = "nat (ID ?v + 1)"
  have j: "?j < length (Steps.steps s)" using rng nl by simp
  have up: "Stepper_Up (Migrator.steps m) ?v =
     Inr (\<lparr>Name = name (Steps.steps s ! ?j), From = ?v, To = version (Steps.steps s ! ?j)\<rparr>,
          up (Steps.steps s ! ?j))"
    using Steps_Up_ok[OF ck nl] st by simp
  have m': "m' = m\<lparr>cachedVersion := version (Steps.steps s ! ?j)\<rparr>"
    using r up by (auto simp: oneUp_def Let_def split: prod.splits option.splits if_splits)
  have "ID (version (Steps.steps s ! ?j)) = ID ?v + 1"
    using registry_ID[OF reg j] rng by simp
  then show ?thesis using m' st ck rng nl by simp
qed

lemma oneDown_registry_cases:
  assumes reg: "appends Sum256 calls (NewSteps Sum256 root) = Some (Inr s)"
    and st: "Migrator.steps m = Steps_Stepper s"
    and r: "oneDown m False d = (None, m', d')"
  shows "Migrator.steps m' = Steps_Stepper s \<and> check s (cachedVersion m) = None \<and>
         0 < ID (cachedVersion m) \<and>
         ID (cachedVersion m') = ID (cachedVersion m) - 1"
proof -
  let ?v = "cachedVersion m"
  have ck: "check s ?v = None"
  proof (rule ccontr)
    assume "check s ?v \<noteq> None"
    from Steps_Down_bad[OF this] st have "Stepper_Down (Migrator.steps m) ?v = Inl (Errorf ''%w: %v'' [ErrBadVersion])"
      by simp
    from oneDown_Inl[OF this] r show False by simp
  qed
  have nz: "ID ?v \<noteq> 0"
  proof
    assume "ID ?v = 0"
    from Steps_Down_first[OF ck this] st have "Stepper_Down (Migrator.steps m) ?v = Inl (Errorf ''%w: %v'' [ErrEndOfSteps])"
      by simp
    from oneDown_Inl[OF this] r show False by simp
  qed
  from ck have rng: "0 \<le> ID ?v" "ID ?v < int (length (Steps.steps s))"
    by (simp_all add: check_None_iff)
  let ?j = "nat (ID ?v - 1)"
  have j: "?j < length (Steps.steps s)" using rng nz by simp
  have dn: "Stepper_Down (Migrator.steps m) ?v =
     Inr (\<lparr>Name = name (Steps.steps s ! nat (ID ?v)), From = ?v, To = version (Steps.steps s ! ?j)\<rparr>,
          down (Steps.steps s ! nat (ID ?v)))"
    using Steps_Down_ok[OF ck nz] st by simp
  have m': "m' = m\<lparr>cachedVersion := version (Steps.steps s ! ?j)\<rparr>"
    using r dn by (auto simp: oneDown_def Let_def split: prod.splits option.splits if_splits)
  have "ID (version (Steps.steps s ! ?j)) = ID ?v - 1"
    using registry_ID[OF reg j] rng nz by simp
  then show ?thesis using m' st ck rng nz by simp
qed

lemma AllUp_returns:
  assumes reg: "appends Sum256 calls (NewSteps Sum256 root) = Some (Inr s)"
    and st: "Migrator.steps m = Steps_Stepper s"
  shows "AllUp m d \<noteq> None"
  using st
proof (induction "nat (int (length (Steps.steps s)) - ID (cachedVersion m))"
        arbitrary: m d rule: less_induct)
  case less
  obtain r m' d' where o: "oneUp m False d = (r, m', d')" by (cases "oneUp m False d") auto
  show ?case
  proof (cases r)
    case (Some err)
    with o show ?thesis by (subst AllUpCtx.simps) simp
  next
    case None
    with o have o': "oneUp m False d = (None, m', d')" by simp
    from oneUp_registry_cases[OF reg less.prems o']
    have st': "Migrator.steps m' = Steps_Stepper s"
      and lt: "nat (int (length (Steps.steps s)) - ID (cachedVersion m')) <
               nat (int (length (Steps.steps s)) - ID (cachedVersion m))"
      by auto
    from less.hyps[OF lt st'] o' show ?thesis by (subst AllUpCtx.simps) simp
  qed
qed

lemma AllDown_returns:
  assumes reg: "appends Sum256 calls (NewSteps Sum256 root) = Some (Inr s)"
    and st: "Migrator.steps m = Steps_Stepper s"
  shows "AllDown m d \<noteq> None"
  using st
proof (induction "nat (ID (cachedVersion m))" arbitrary: m d rule: less_induct)
  case less
  obtain r m' d' where o: "oneDown m False d = (r, m', d')" by (cases "oneDown m False d") auto
  show ?case
  proof (cases r)
    case (Some err)
    with o show ?thesis by (subst AllDownCtx.simps) simp
  next
    case None
    with o have o': "oneDown m False d = (None, m', d')" by simp
    from oneDown_registry_cases[OF reg less.prems o']
    have st': "Migrator.steps m' = Steps_Stepper s"
      and lt: "nat (ID (cachedVersion m')) < nat (ID (cachedVersion m))"
      by auto
    from less.hyps[OF lt st'] o' show ?thesis by (subst AllDownCtx.simps) simp
  qed
qed

text \<open>
  Claim C6. When \<open>n\<close> steps in a row succeed and the next one fails, \<open>AllUp\<close> returns:
  \<open>nil\<close> when the error wraps \<open>ErrEndOfSteps\<close>, else the error wrapped with
  \<open>all up\<close>; the migrator it leaves is the one after the \<open>n\<close> steps. \<open>OneUp\<close> at that
  point returns the error of the step wrapped with \<open>one up\<close>, so \<open>ErrEndOfSteps\<close> too.
  The same holds downwards. On a registry both loops return.
\<close>

theorem all_up_all_down:
  "(\<forall>n m1 d1 err m2 d2.
      oneUps n m d = Some (m1, d1) \<and> oneUp m1 False d1 = (Some err, m2, d2) \<longrightarrow>
      AllUp m d =
        Some (if Is err ErrEndOfSteps then None else Some (Errorf ''all up: %w'' [err]), m1, d2) \<and>
      OneUp m1 d1 = (Some (Errorf ''one up: %w'' [err]), m1, d2) \<and>
      (Is err ErrEndOfSteps \<longrightarrow> fails_with (fst (OneUp m1 d1)) ErrEndOfSteps)) \<and>
   (\<forall>n m1 d1 err m2 d2.
      oneDowns n m d = Some (m1, d1) \<and> oneDown m1 False d1 = (Some err, m2, d2) \<longrightarrow>
      AllDown m d =
        Some (if Is err ErrEndOfSteps then None else Some (Errorf ''all down: %w'' [err]), m1, d2) \<and>
      OneDown m1 d1 = (Some (Errorf ''one down: %w'' [err]), m1, d2) \<and>
      (Is err ErrEndOfSteps \<longrightarrow> fails_with (fst (OneDown m1 d1)) ErrEndOfSteps)) \<and>
   (appends Sum256 calls (NewSteps Sum256 root) = Some (Inr s) \<and> Migrator.steps m = Steps_Stepper s \<longrightarrow>
      AllUp m d \<noteq> None \<and> AllDown m d \<noteq> None)"
proof -
  have a: "AllUp m d =
        Some (if Is err ErrEndOfSteps then None else Some (Errorf ''all up: %w'' [err]), m1, d2) \<and>
      OneUp m1 d1 = (Some (Errorf ''one up: %w'' [err]), m1, d2) \<and>
      (Is err ErrEndOfSteps \<longrightarrow> fails_with (fst (OneUp m1 d1)) ErrEndOfSteps)"
    if h: "oneUps n m d = Some (m1, d1) \<and> oneUp m1 False d1 = (Some err, m2, d2)"
    for n m1 d1 err m2 d2
  proof -
    from h have "m2 = m1" by (auto dest: oneUp_fail_same)
    with h AllUp_after_ups[of n m d m1 d1 err m2 d2] show ?thesis
      by (simp add: OneUpCtx_def fails_with_def)
  qed
  have b: "AllDown m d =
        Some (if Is err ErrEndOfSteps then None else Some (Errorf ''all down: %w'' [err]), m1, d2) \<and>
      OneDown m1 d1 = (Some (Errorf ''one down: %w'' [err]), m1, d2) \<and>
      (Is err ErrEndOfSteps \<longrightarrow> fails_with (fst (OneDown m1 d1)) ErrEndOfSteps)"
    if h: "oneDowns n m d = Some (m1, d1) \<and> oneDown m1 False d1 = (Some err, m2, d2)"
    for n m1 d1 err m2 d2
  proof -
    from h have "m2 = m1" by (auto dest: oneDown_fail_same)
    with h AllDown_after_downs[of n m d m1 d1 err m2 d2] show ?thesis
      by (simp add: OneDownCtx_def fails_with_def)
  qed
  have c: "AllUp m d \<noteq> None \<and> AllDown m d \<noteq> None"
    if "appends Sum256 calls (NewSteps Sum256 root) = Some (Inr s) \<and> Migrator.steps m = Steps_Stepper s"
    using that AllUp_returns[of Sum256 calls root s m d]
      AllDown_returns[of Sum256 calls root s m d] by simp
  show ?thesis using a b c by blast
qed

text \<open>
  The registry of the tests: up from version 0 to the end, down again, and up on the
  registry whose second step aborts.
\<close>

theorem all_up_all_down_witness:
  "oneUps 2 (demo_Migrator demo_v0) (demo_db demo_v0) =
     Some (demo_Migrator demo_v2, demo_db demo_v2) \<and>
   oneUp (demo_Migrator demo_v2) False (demo_db demo_v2) =
     (Some (Errorf ''%w: %v'' [ErrEndOfSteps]), demo_Migrator demo_v2, demo_db demo_v2) \<and>
   AllUp (demo_Migrator demo_v0) (demo_db demo_v0) =
     Some (None, demo_Migrator demo_v2, demo_db demo_v2) \<and>
   fails_with (fst (OneUp (demo_Migrator demo_v2) (demo_db demo_v2))) ErrEndOfSteps \<and>
   oneDowns 2 (demo_Migrator demo_v2) (demo_db demo_v2) =
     Some (demo_Migrator demo_v0, demo_db demo_v0) \<and>
   AllDown (demo_Migrator demo_v2) (demo_db demo_v2) =
     Some (None, demo_Migrator demo_v0, demo_db demo_v0) \<and>
   fails_with (fst (OneDown (demo_Migrator demo_v0) (demo_db demo_v0))) ErrEndOfSteps \<and>
   oneUps 1 (demo_Migrator_abort demo_v0) (demo_db demo_v0) =
     Some (demo_Migrator_abort demo_v1, demo_db demo_v1) \<and>
   oneUp (demo_Migrator_abort demo_v1) False (demo_db demo_v1) =
     (Some ErrAbort, demo_Migrator_abort demo_v1, demo_db demo_v1) \<and>
   AllUp (demo_Migrator_abort demo_v0) (demo_db demo_v0) =
     Some (Some (Errorf ''all up: %w'' [ErrAbort]), demo_Migrator_abort demo_v1, demo_db demo_v1) \<and>
   AllUp (demo_Migrator demo_v1) (demo_db demo_v1) \<noteq> None"
proof -
  have two: "(2::nat) = Suc (Suc 0)" and one: "(1::nat) = Suc 0" by simp_all
  have u2: "oneUps 2 (demo_Migrator demo_v0) (demo_db demo_v0) =
     Some (demo_Migrator demo_v2, demo_db demo_v2)"
    by (simp add: two demo_oneUp)
  have d2: "oneDowns 2 (demo_Migrator demo_v2) (demo_db demo_v2) =
     Some (demo_Migrator demo_v0, demo_db demo_v0)"
    by (simp add: two demo_oneDown)
  have u1: "oneUps 1 (demo_Migrator_abort demo_v0) (demo_db demo_v0) =
     Some (demo_Migrator_abort demo_v1, demo_db demo_v1)"
    by (simp add: demo_oneUp_abort)
  note tu = all_up_all_down[of "demo_Migrator demo_v0" "demo_db demo_v0", THEN conjunct1,
      rule_format, of 2 "demo_Migrator demo_v2" "demo_db demo_v2"
        "Errorf ''%w: %v'' [ErrEndOfSteps]" "demo_Migrator demo_v2" "demo_db demo_v2",
      OF conjI[OF u2 demo_oneUp(3)]]
  have a: "AllUp (demo_Migrator demo_v0) (demo_db demo_v0) =
     Some (None, demo_Migrator demo_v2, demo_db demo_v2)"
    using tu by simp
  have a': "fails_with (fst (OneUp (demo_Migrator demo_v2) (demo_db demo_v2))) ErrEndOfSteps"
    using tu[THEN conjunct2, THEN conjunct2] by simp
  note td = all_up_all_down[of "demo_Migrator demo_v2" "demo_db demo_v2", THEN conjunct2,
      THEN conjunct1, rule_format, of 2 "demo_Migrator demo_v0" "demo_db demo_v0"
        "Errorf ''%w: %v'' [ErrEndOfSteps]" "demo_Migrator demo_v0" "demo_db demo_v0",
      OF conjI[OF d2 demo_oneDown(3)]]
  have b: "AllDown (demo_Migrator demo_v2) (demo_db demo_v2) =
     Some (None, demo_Migrator demo_v0, demo_db demo_v0)"
    using td by simp
  have b': "fails_with (fst (OneDown (demo_Migrator demo_v0) (demo_db demo_v0))) ErrEndOfSteps"
    using td[THEN conjunct2, THEN conjunct2] by simp
  have c: "AllUp (demo_Migrator_abort demo_v0) (demo_db demo_v0) =
     Some (Some (Errorf ''all up: %w'' [ErrAbort]), demo_Migrator_abort demo_v1, demo_db demo_v1)"
    using all_up_all_down[of "demo_Migrator_abort demo_v0" "demo_db demo_v0", THEN conjunct1,
      rule_format, of 1 "demo_Migrator_abort demo_v1" "demo_db demo_v1"
        ErrAbort "demo_Migrator_abort demo_v1" "demo_db demo_v1"] u1 demo_oneUp_abort(2)
    by (simp add: sentinel_defs)
  have e: "AllUp (demo_Migrator demo_v1) (demo_db demo_v1) \<noteq> None"
    using all_up_all_down[of "demo_Migrator demo_v1" "demo_db demo_v1" demo_Sum256 demo_calls
        "''test-db''" demo_Steps, THEN conjunct2, THEN conjunct2] demo_registry
    by (simp add: demo_Migrator_def)
  show ?thesis
    using u2 demo_oneUp(3) a a' d2 b b' u1 demo_oneUp_abort(2) c e by simp
qed

section \<open>Cancel and abort in TxF\<close>

lemma TxF_loop_all:
  "invoke_all fs info dryRun d = (rs, d') \<Longrightarrow> list_all (\<lambda>r. r = None \<or> cancels r) rs \<Longrightarrow>
   TxF_loop fs info dryRun c d = (Inr (c \<or> list_ex cancels rs), d')"
proof (induction fs arbitrary: d d' rs c)
  case Nil
  then show ?case by auto
next
  case (Cons f fs)
  obtain r d1 where f: "f info dryRun d = (r, d1)" by (cases "f info dryRun d") auto
  obtain rs1 d2 where i: "invoke_all fs info dryRun d1 = (rs1, d2)"
    by (cases "invoke_all fs info dryRun d1") auto
  from Cons.prems f i have rs: "rs = r # rs1" "d' = d2" by simp_all
  with Cons.prems have ok: "r = None \<or> cancels r" "list_all (\<lambda>r. r = None \<or> cancels r) rs1"
    by simp_all
  show ?case
  proof (cases r)
    case None
    with Cons.IH[OF i ok(2), of c] f rs show ?thesis by (simp add: cancels_def)
  next
    case (Some err)
    with ok have c: "Is err ErrCancel" by (simp add: cancels_def)
    with Cons.IH[OF i ok(2), of True] f rs Some show ?thesis by (simp add: cancels_def)
  qed
qed

lemma TxF_loop_abort:
  "k < length fs \<Longrightarrow> invoke_all (take k fs) info dryRun d = (rs, d3) \<Longrightarrow>
   list_all (\<lambda>r. r = None \<or> cancels r) rs \<Longrightarrow>
   (fs ! k) info dryRun d3 = (Some err, d4) \<Longrightarrow> \<not> Is err ErrCancel \<Longrightarrow>
   TxF_loop fs info dryRun c d = (Inl err, d4)"
proof (induction fs arbitrary: k d d3 rs c)
  case Nil
  then show ?case by simp
next
  case (Cons f fs)
  show ?case
  proof (cases k)
    case 0
    with Cons.prems show ?thesis by simp
  next
    case (Suc j)
    obtain r d1 where f: "f info dryRun d = (r, d1)" by (cases "f info dryRun d") auto
    obtain rs1 d2 where i: "invoke_all (take j fs) info dryRun d1 = (rs1, d2)"
      by (cases "invoke_all (take j fs) info dryRun d1") auto
    from Cons.prems(2) Suc f i have rs: "rs = r # rs1" "d3 = d2" by simp_all
    with Cons.prems(3) have ok: "r = None \<or> cancels r"
        "list_all (\<lambda>r. r = None \<or> cancels r) rs1" by simp_all
    from Cons.prems(1) Suc have j: "j < length fs" by simp
    from Cons.prems(4) Suc rs have fk: "(fs ! j) info dryRun d2 = (Some err, d4)" by simp
    note ih = Cons.IH[OF j i ok(2) fk Cons.prems(5)]
    show ?thesis
    proof (cases r)
      case None
      with ih[of c] f show ?thesis by simp
    next
      case (Some e)
      with ok have "Is e ErrCancel" by (simp add: cancels_def)
      with ih[of True] f Some show ?thesis by simp
    qed
  qed
qed

lemma invoke_all_frame:
  "\<forall>f\<in>set fs. \<forall>d. obs (snd (f info dryRun d)) = obs d \<Longrightarrow>
   obs (snd (invoke_all fs info dryRun d)) = obs d"
proof (induction fs arbitrary: d)
  case Nil
  then show ?case by simp
next
  case (Cons f fs)
  obtain r d1 where f: "f info dryRun d = (r, d1)" by (cases "f info dryRun d") auto
  obtain rs1 d2 where i: "invoke_all fs info dryRun d1 = (rs1, d2)"
    by (cases "invoke_all fs info dryRun d1") auto
  from Cons.prems f have "obs d1 = obs d" by (metis list.set_intros(1) snd_conv)
  moreover from Cons.IH[of d1] Cons.prems i have "obs d2 = obs d1" by simp
  ultimately show ?case using f i by simp
qed

lemma invoke_all_length: "length (fst (invoke_all fs info dryRun d)) = length fs"
  by (induction fs arbitrary: d) (simp_all add: split_beta Let_def)

lemma sqlDB_Database_sel [simp]:
  "Database_SQLDB (sqlDB_Database s) = Some (sqlDB_SQLDB s)"
  "SQLDB_StartTransaction (sqlDB_SQLDB s) = StartTransaction s"
  "SQLTx_FinalizeTransaction (sqlDB_SQLDB s) = FinalizeTransaction s"
  "SQLDB_VersionTx (sqlDB_SQLDB s) = VersionTx s"
  "SQLDB_SetVersionTx (sqlDB_SQLDB s) = SetVersionTx s"
  by (simp_all add: sqlDB_Database_def sqlDB_SQLDB_def)

lemma TxF_cancelled:
  assumes "sql_BeginTx (DB s) False d = (None, d1)"
    and "VersionTx s d1 = ((From info, None), d2)"
    and "TxF_loop fs info dryRun False d2 = (Inr True, d3)"
  shows "TxF fs (sqlDB_Database s) info dryRun d =
    (case FinalizeTransaction s (Some ErrCancel) dryRun d3 of
       (None, d) \<Rightarrow> (None, d)
     | (Some e, d) \<Rightarrow>
         if Is e ErrCancel then (None, d)
         else if dryRun then (Some (Errorf ''txf %v -> %v dry run: %w'' [e]), d)
         else (Some (Errorf ''txf %v -> %v: %w'' [e]), d))"
  using assms by (simp add: TxF_def StartTransaction_def)

lemma TxF_returned:
  assumes "sql_BeginTx (DB s) False d = (None, d1)"
    and "VersionTx s d1 = ((From info, None), d2)"
    and "TxF_loop fs info dryRun False d2 = (Inl err, d3)"
  shows "TxF fs (sqlDB_Database s) info dryRun d =
    (case FinalizeTransaction s (Some err) dryRun d3 of
       (None, d) \<Rightarrow> (None, d)
     | (Some e, d) \<Rightarrow>
         if Is e ErrCancel then (None, d)
         else if dryRun then (Some (Errorf ''txf %v -> %v dry run: %w'' [e]), d)
         else (Some (Errorf ''txf %v -> %v: %w'' [e]), d))"
  using assms by (simp add: TxF_def StartTransaction_def)

lemma Finalize_error:
  "FinalizeTransaction s (Some e) dryRun d =
     (case sql_Rollback (DB s) d of
        (Some rollbackErr, d') \<Rightarrow>
          (Some (Errorf ''%w; %w: %w'' [e, ErrRollbackTx, Foreign rollbackErr]), d')
      | (None, d') \<Rightarrow> (Some e, d'))"
  by (simp add: FinalizeTransaction_def split: prod.splits option.splits)

lemma mem_engine [simp]:
  "sql_BeginTx (DB demo_sqlDB) readOnly st =
     (None, st\<lparr>pending := committed st, journal := journal st @ [CallBeginTx]\<rparr>)"
  "sql_Rollback (DB demo_sqlDB) st =
     (None, st\<lparr>pending := committed st, journal := journal st @ [CallRollback]\<rparr>)"
  "sql_QueryRow_Scan (DB demo_sqlDB) query st =
     (case pending st of
        None \<Rightarrow> (Inl ''sql: no rows in result set'',
                 st\<lparr>journal := journal st @ [CallQueryRow query]\<rparr>)
      | Some row \<Rightarrow> (Inr row, st\<lparr>journal := journal st @ [CallQueryRow query]\<rparr>))"
  "Queries demo_sqlDB = demo_Q"
  by (simp_all add: demo_sqlDB_def NewSQLDB_def mem_sql_def Let_def split: option.splits)

lemma txf_MakeVersion: "MakeVersion 100 (ChecksumString txf_v1) = (txf_v1, None)"
  by code_simp

text \<open>
  Claim C5. A step function built by \<open>TxF\<close> runs on the SQL database, its transaction
  started and the version it reads equal to \<open>From info\<close>. When at least one callback
  returns an error wrapping \<open>ErrCancel\<close> and every other one returns \<open>nil\<close> or such an
  error, the step function returns \<open>nil\<close>; every callback is called, also after the one
  that cancels; the state it leaves is the one \<open>Rollback\<close> leaves after the last
  callback: neither the version update nor \<open>Commit\<close> is run, so whatever begin, the
  version query, the callbacks and rollback leave unchanged (the stored version) is
  unchanged. When a callback returns an error that does not wrap \<open>ErrCancel\<close> (after
  callbacks that returned \<open>nil\<close> or cancelled), the step function rolls back right after
  it and returns an error wrapping that error.
\<close>

theorem TxF_cancel_abort:
  fixes s :: "'a sqlDB"
  assumes started: "sql_BeginTx (DB s) False d = (None, d1)"
    and atfrom: "VersionTx s d1 = ((From info, None), d2)"
  shows
   "(\<forall>rs d3. invoke_all fs info dryRun d2 = (rs, d3) \<and>
        list_all (\<lambda>r. r = None \<or> cancels r) rs \<and> list_ex cancels rs \<longrightarrow>
      TxF fs (sqlDB_Database s) info dryRun d = (None, snd (sql_Rollback (DB s) d3)) \<and>
      length rs = length fs \<and>
      (\<forall>obs :: 'a \<Rightarrow> 'b.
         (\<forall>x. obs (snd (sql_BeginTx (DB s) False x)) = obs x) \<and>
         (\<forall>x. obs (snd (sql_QueryRow_Scan (DB s) (VersionQuery (Queries s)) x)) = obs x) \<and>
         (\<forall>f\<in>set fs. \<forall>x. obs (snd (f info dryRun x)) = obs x) \<and>
         (\<forall>x. obs (snd (sql_Rollback (DB s) x)) = obs x) \<longrightarrow>
         obs (snd (TxF fs (sqlDB_Database s) info dryRun d)) = obs d)) \<and>
    (\<forall>k rs d3 err d4. k < length fs \<and> invoke_all (take k fs) info dryRun d2 = (rs, d3) \<and>
        list_all (\<lambda>r. r = None \<or> cancels r) rs \<and>
        (fs ! k) info dryRun d3 = (Some err, d4) \<and> \<not> Is err ErrCancel \<longrightarrow>
      TxF fs (sqlDB_Database s) info dryRun d =
        (Some (Errorf (if dryRun then ''txf %v -> %v dry run: %w'' else ''txf %v -> %v: %w'')
                 [after_rollback err (fst (sql_Rollback (DB s) d4))]),
         snd (sql_Rollback (DB s) d4)) \<and>
      fails_with (fst (TxF fs (sqlDB_Database s) info dryRun d)) err)"
proof -
  have cancel: "TxF fs (sqlDB_Database s) info dryRun d = (None, snd (sql_Rollback (DB s) d3)) \<and>
      length rs = length fs \<and>
      (\<forall>obs :: 'a \<Rightarrow> 'b.
         (\<forall>x. obs (snd (sql_BeginTx (DB s) False x)) = obs x) \<and>
         (\<forall>x. obs (snd (sql_QueryRow_Scan (DB s) (VersionQuery (Queries s)) x)) = obs x) \<and>
         (\<forall>f\<in>set fs. \<forall>x. obs (snd (f info dryRun x)) = obs x) \<and>
         (\<forall>x. obs (snd (sql_Rollback (DB s) x)) = obs x) \<longrightarrow>
         obs (snd (TxF fs (sqlDB_Database s) info dryRun d)) = obs d)"
    if h: "invoke_all fs info dryRun d2 = (rs, d3) \<and>
        list_all (\<lambda>r. r = None \<or> cancels r) rs \<and> list_ex cancels rs" for rs d3
  proof -
    from h TxF_loop_all[of fs info dryRun d2 rs d3 False]
    have loop: "TxF_loop fs info dryRun False d2 = (Inr True, d3)" by simp
    obtain rb d5 where rb: "sql_Rollback (DB s) d3 = (rb, d5)"
      by (cases "sql_Rollback (DB s) d3") auto
    have res: "TxF fs (sqlDB_Database s) info dryRun d = (None, snd (sql_Rollback (DB s) d3))"
      using TxF_cancelled[OF started atfrom loop] rb
      by (cases rb) (simp_all add: Finalize_error sentinel_defs)
    have len: "length rs = length fs"
      using invoke_all_length[of fs info dryRun d2] h by simp
    have frame: "obs (snd (TxF fs (sqlDB_Database s) info dryRun d)) = obs d"
      if o: "(\<forall>x. obs (snd (sql_BeginTx (DB s) False x)) = obs x) \<and>
         (\<forall>x. obs (snd (sql_QueryRow_Scan (DB s) (VersionQuery (Queries s)) x)) = obs x) \<and>
         (\<forall>f\<in>set fs. \<forall>x. obs (snd (f info dryRun x)) = obs x) \<and>
         (\<forall>x. obs (snd (sql_Rollback (DB s) x)) = obs x)" for obs
    proof -
      from o started have a: "obs d1 = obs d" by (metis snd_conv)
      have "d2 = snd (sql_QueryRow_Scan (DB s) (VersionQuery (Queries s)) d1)"
        using atfrom by (auto simp: VersionTx_def split: prod.splits sum.splits)
      with o have b: "obs d2 = obs d1" by simp
      from o invoke_all_frame[of fs obs info dryRun d2] h have c: "obs d3 = obs d2" by simp
      from o have "obs (snd (sql_Rollback (DB s) d3)) = obs d3" by simp
      with a b c res show ?thesis by simp
    qed
    show ?thesis
    proof (intro conjI allI impI)
      show "TxF fs (sqlDB_Database s) info dryRun d = (None, snd (sql_Rollback (DB s) d3))"
        by (rule res)
      show "length rs = length fs" by (rule len)
    next
      fix obs :: "'a \<Rightarrow> 'b"
      assume "(\<forall>x. obs (snd (sql_BeginTx (DB s) False x)) = obs x) \<and>
         (\<forall>x. obs (snd (sql_QueryRow_Scan (DB s) (VersionQuery (Queries s)) x)) = obs x) \<and>
         (\<forall>f\<in>set fs. \<forall>x. obs (snd (f info dryRun x)) = obs x) \<and>
         (\<forall>x. obs (snd (sql_Rollback (DB s) x)) = obs x)"
      then show "obs (snd (TxF fs (sqlDB_Database s) info dryRun d)) = obs d"
        by (rule frame)
    qed
  qed
  have abort: "TxF fs (sqlDB_Database s) info dryRun d =
        (Some (Errorf (if dryRun then ''txf %v -> %v dry run: %w'' else ''txf %v -> %v: %w'')
                 [after_rollback err (fst (sql_Rollback (DB s) d4))]),
         snd (sql_Rollback (DB s) d4)) \<and>
      fails_with (fst (TxF fs (sqlDB_Database s) info dryRun d)) err"
    if h: "k < length fs \<and> invoke_all (take k fs) info dryRun d2 = (rs, d3) \<and>
        list_all (\<lambda>r. r = None \<or> cancels r) rs \<and>
        (fs ! k) info dryRun d3 = (Some err, d4) \<and> \<not> Is err ErrCancel" for k rs d3 err d4
  proof -
    from h TxF_loop_abort[of k fs info dryRun d2 rs d3 err d4 False]
    have loop: "TxF_loop fs info dryRun False d2 = (Inl err, d4)" by simp
    obtain rb d5 where rb: "sql_Rollback (DB s) d4 = (rb, d5)"
      by (cases "sql_Rollback (DB s) d4") auto
    from h have nc: "\<not> Is err ErrCancel" by simp
    have res: "TxF fs (sqlDB_Database s) info dryRun d =
        (Some (Errorf (if dryRun then ''txf %v -> %v dry run: %w'' else ''txf %v -> %v: %w'')
                 [after_rollback err (fst (sql_Rollback (DB s) d4))]),
         snd (sql_Rollback (DB s) d4))"
      using TxF_returned[OF started atfrom loop] rb nc
      by (cases rb) (simp_all add: Finalize_error after_rollback_def sentinel_defs)
    have "fails_with (fst (TxF fs (sqlDB_Database s) info dryRun d)) err"
      unfolding res by (cases rb) (simp_all add: rb fails_with_def after_rollback_def)
    with res show ?thesis by simp
  qed
  show ?thesis using cancel abort by blast
qed

text \<open>
  The step of \<open>TestTxF\<close> on the engine above, with three callbacks: the second cancels,
  and in a second run the first cancels and the second aborts.
\<close>

theorem TxF_cancel_abort_witness:
  "sql_BeginTx (DB demo_sqlDB) False (mem_at txf_v1) =
     (None, \<lparr>committed = Some (100, ChecksumString txf_v1),
             pending = Some (100, ChecksumString txf_v1), journal = [CallBeginTx]\<rparr>) \<and>
   fst (VersionTx demo_sqlDB
     \<lparr>committed = Some (100, ChecksumString txf_v1),
      pending = Some (100, ChecksumString txf_v1), journal = [CallBeginTx]\<rparr>) =
     (From txf_info, None) \<and>
   TxF fs_cancel (sqlDB_Database demo_sqlDB) txf_info False (mem_at txf_v1) =
     (None,
      \<lparr>committed = Some (100, ChecksumString txf_v1),
       pending = Some (100, ChecksumString txf_v1),
       journal = [CallBeginTx, CallQueryRow (VersionQuery demo_Q), CallTxFunc 0, CallTxFunc 1,
                  CallTxFunc 2, CallRollback]\<rparr>) \<and>
   committed (snd (TxF fs_cancel (sqlDB_Database demo_sqlDB) txf_info False (mem_at txf_v1))) =
     committed (mem_at txf_v1) \<and>
   TxF fs_abort (sqlDB_Database demo_sqlDB) txf_info False (mem_at txf_v1) =
     (Some (Errorf ''txf %v -> %v: %w'' [ErrAbort]),
      \<lparr>committed = Some (100, ChecksumString txf_v1),
       pending = Some (100, ChecksumString txf_v1),
       journal = [CallBeginTx, CallQueryRow (VersionQuery demo_Q), CallTxFunc 0, CallTxFunc 1,
                  CallRollback]\<rparr>) \<and>
   fails_with (fst (TxF fs_abort (sqlDB_Database demo_sqlDB) txf_info False (mem_at txf_v1)))
     ErrAbort"
proof -
  let ?row = "Some (100, ChecksumString txf_v1)"
  let ?d = "mem_at txf_v1"
  let ?m1 = "\<lparr>committed = ?row, pending = ?row, journal = [CallBeginTx]\<rparr>"
  let ?m2 = "\<lparr>committed = ?row, pending = ?row,
              journal = [CallBeginTx, CallQueryRow (VersionQuery demo_Q)]\<rparr>"
  let ?m3 = "\<lparr>committed = ?row, pending = ?row,
              journal = [CallBeginTx, CallQueryRow (VersionQuery demo_Q), CallTxFunc 0,
                         CallTxFunc 1, CallTxFunc 2]\<rparr>"
  let ?a3 = "\<lparr>committed = ?row, pending = ?row,
              journal = [CallBeginTx, CallQueryRow (VersionQuery demo_Q), CallTxFunc 0]\<rparr>"
  let ?a4 = "\<lparr>committed = ?row, pending = ?row,
              journal = [CallBeginTx, CallQueryRow (VersionQuery demo_Q), CallTxFunc 0,
                         CallTxFunc 1]\<rparr>"
  have id1: "ID txf_v1 = 100" by (simp add: txf_v1_def)
  have h1: "sql_BeginTx (DB demo_sqlDB) False ?d = (None, ?m1)"
    by (simp add: mem_at_def id1)
  have h2: "VersionTx demo_sqlDB ?m1 = ((From txf_info, None), ?m2)"
    by (simp add: VersionTx_def txf_MakeVersion txf_info_def)
  have h3: "invoke_all fs_cancel txf_info False ?m2 = ([None, Some ErrCancel, None], ?m3)"
    by (simp add: fs_cancel_def mockTxF_def)
  have c3: "list_all (\<lambda>r. r = None \<or> cancels r) [None, Some ErrCancel, None]"
      "list_ex cancels [None, Some ErrCancel, None]"
    by (simp_all add: cancels_def)
  note t = TxF_cancel_abort[OF h1 h2, of fs_cancel False]
  note tc = t[THEN conjunct1, rule_format, OF conjI[OF h3 conjI[OF c3]]]
  have a: "TxF fs_cancel (sqlDB_Database demo_sqlDB) txf_info False ?d =
     (None, \<lparr>committed = ?row, pending = ?row,
       journal = [CallBeginTx, CallQueryRow (VersionQuery demo_Q), CallTxFunc 0, CallTxFunc 1,
                  CallTxFunc 2, CallRollback]\<rparr>)"
    using tc[THEN conjunct1] by simp
  have fr: "(\<forall>x. committed (snd (sql_BeginTx (DB demo_sqlDB) False x)) = committed x) \<and>
         (\<forall>x. committed (snd (sql_QueryRow_Scan (DB demo_sqlDB)
                (VersionQuery (Queries demo_sqlDB)) x)) = committed x) \<and>
         (\<forall>f\<in>set fs_cancel. \<forall>x. committed (snd (f txf_info False x)) = committed x) \<and>
         (\<forall>x. committed (snd (sql_Rollback (DB demo_sqlDB) x)) = committed x)"
    by (simp add: fs_cancel_def mockTxF_def split: option.splits)
  have b: "committed (snd (TxF fs_cancel (sqlDB_Database demo_sqlDB) txf_info False ?d)) =
     committed ?d"
    using tc[THEN conjunct2, THEN conjunct2, rule_format, OF fr] .
  have k: "(1::nat) < length fs_abort" by (simp add: fs_abort_def)
  have h4: "invoke_all (take 1 fs_abort) txf_info False ?m2 = ([Some ErrCancel], ?a3)"
    by (simp add: fs_abort_def mockTxF_def)
  have c4: "list_all (\<lambda>r. r = None \<or> cancels r) [Some ErrCancel]"
    by (simp add: cancels_def)
  have h5: "(fs_abort ! 1) txf_info False ?a3 = (Some ErrAbort, ?a4)"
    by (simp add: fs_abort_def mockTxF_def)
  have n: "\<not> Is ErrAbort ErrCancel" by (simp add: sentinel_defs)
  note ta = TxF_cancel_abort[OF h1 h2, of fs_abort False, THEN conjunct2, rule_format,
      OF conjI[OF k conjI[OF h4 conjI[OF c4 conjI[OF h5 n]]]]]
  have c: "TxF fs_abort (sqlDB_Database demo_sqlDB) txf_info False ?d =
     (Some (Errorf ''txf %v -> %v: %w'' [ErrAbort]),
      \<lparr>committed = ?row, pending = ?row,
       journal = [CallBeginTx, CallQueryRow (VersionQuery demo_Q), CallTxFunc 0, CallTxFunc 1,
                  CallRollback]\<rparr>)"
    using ta[THEN conjunct1] by (simp add: after_rollback_def)
  have e: "fails_with (fst (TxF fs_abort (sqlDB_Database demo_sqlDB) txf_info False ?d)) ErrAbort"
    using ta[THEN conjunct2] .
  have h2': "fst (VersionTx demo_sqlDB ?m1) = (From txf_info, None)"
    using h2 by simp
  show ?thesis
    using h1 h2' a b c e by simp
qed

end
